theory Spec2Isabelle
  imports Complex_Main "HOL-Library.AList"
begin

section \<open>Values, messages and collaborators of the model handler\<close>

text \<open>
  The handler under study is the class \<open>ModelHandler\<close> with its static methods
  \<open>callModel\<close>, \<open>generateCompletion\<close> and \<open>processToolCalls\<close>.

  Strings are lists of \<open>char\<close>, one \<open>char\<close> per code unit (code units below 256).
  Values that the handler only reads, builds afresh or hands on (parsed tool arguments,
  MCP payloads) are trees of type \<open>json\<close>. Objects and arrays that the handler receives by
  reference and copies or pushes to (the transcript, the tool schemas) live in explicit
  stores, see below.
\<close>

datatype json =
    JNull
  | JBool bool
  | JNum rat
  | JStr string
  | JArr "json list"
  | JObj "(string \<times> json) list"

text \<open>
  What a JavaScript \<open>throw\<close> can carry, as far as the handler's \<open>catch\<close> blocks tell the
  cases apart: an \<open>Error\<close> instance with its message, an \<open>OpenAI.APIError\<close> (also an
  \<open>Error\<close>) with its message and the rendered status, type, code and param, and any other
  thrown value with its \<open>String(...)\<close> rendering.
\<close>

datatype thrown =
    JSError string
  | APIError string string string string string
  | NonError string

fun instanceofError :: "thrown \<Rightarrow> bool" where
  "instanceofError (JSError m) = True"
| "instanceofError (APIError m st ty co pa) = True"
| "instanceofError (NonError s) = False"

fun errorMessage :: "thrown \<Rightarrow> string" where
  "errorMessage (JSError m) = m"
| "errorMessage (APIError m st ty co pa) = m"
| "errorMessage (NonError s) = s"

text \<open>\<open>OpenAI.ChatCompletionMessageToolCall\<close>: \<open>{ id, function: { name, arguments } }\<close>.\<close>

record tool_call =
  tc_id :: string
  tc_name :: string
  tc_arguments :: string

datatype role = User | Assistant | System | Tool

text \<open>\<open>FlujoChatMessage\<close>; an optional field that is not set is \<open>None\<close>.\<close>

record FlujoChatMessage =
  msg_id :: string
  msg_role :: role
  msg_content :: string
  tool_calls :: "tool_call list option"
  tool_call_id :: "string option"
  timestamp :: int
  processNodeId :: "string option"

text \<open>\<open>ToolCallInfo\<close>, the element type of \<open>processedToolCalls\<close> and of \<open>toolCalls\<close>.\<close>

record ToolCallInfo =
  name :: string
  args :: json
  call_id :: string
  result :: string

record ToolCallProcessingResult =
  toolCallMessages :: "FlujoChatMessage list"
  processedToolCalls :: "ToolCallInfo list"


text \<open>The answer of \<open>mcpService.callTool\<close>: \<open>{ success, data, error }\<close>, with \<open>data\<close> a JSON
  value and \<open>error\<close> as the template literal renders it.\<close>

record mcp_result =
  success :: bool
  data :: json
  error :: string

text \<open>The model descriptor of \<open>modelService.getModel\<close>; an unset or empty field is \<open>''''\<close>.\<close>

record model =
  displayName :: string
  model_name :: string
  temperature :: string
  ApiKey :: string
  baseUrl :: string

subsection \<open>The store of plain objects (tool schemas)\<close>

text \<open>
  Tool schemas are free-form object graphs handed over by reference. A value is a
  primitive or a reference to a cell of the object store; a cell is an object (its own
  properties in order) or an array. The store is its cells and the next free address.
\<close>

datatype val = Undefined | Null | Bool bool | Num rat | Str string | Ref nat

datatype obj = Obj "(string \<times> val) list" | Arr "val list"

record heap =
  cells :: "nat \<Rightarrow> obj"
  limit :: nat

subsection \<open>The completion endpoint's wire types\<close>

datatype temperature_setting = Zero | ParseFloat string

text \<open>\<open>OpenAI.ChatCompletionMessageParam\<close> as the handler sends it: a message without its
  \<open>timestamp\<close>.\<close>

record api_message =
  am_id :: string
  am_role :: role
  am_content :: string
  am_tool_calls :: "tool_call list option"
  am_tool_call_id :: "string option"
  am_processNodeId :: "string option"

text \<open>
  What the completion endpoint is called with: the client's configuration (\<open>apiKey\<close>,
  \<open>baseURL\<close>) and the request parameters. The messages are kept by value; \<open>tools\<close>, when
  set, is a reference into the object store.
\<close>

record request =
  req_apiKey :: string
  req_baseURL :: string
  req_model :: string
  req_messages :: "api_message list"
  req_temperature :: temperature_setting
  req_tools :: "val option"

text \<open>The embedded error object of a soft failure; absent fields are \<open>None\<close>.\<close>

record error_obj =
  eo_message :: "string option"
  eo_metadata_raw :: "string option"
  eo_code :: string
  eo_type :: string
  eo_param :: string

record response_message =
  rm_content :: "string option"
  rm_tool_calls :: "tool_call list option"

text \<open>The raw response. A choice is kept as its \<open>message\<close>, which may be absent.\<close>

record chat_completion =
  cc_error :: "error_obj option"
  cc_choices :: "response_message option list option"

text \<open>
  \<open>ExecutionError\<close> values are built by \<open>createModelError\<close> and \<open>createToolError\<close> of
  \<open>errorFactory\<close>, which is not among the sources; an error is kept as the factory that
  built it together with the arguments it was given: kind, message, model id or tool
  name, and for model errors the details object (stack traces left out). The message of
  a model error is a value, since the soft-failure path passes on whatever a nested
  payload holds.
\<close>

datatype details =
    NoDetails
  | APIErrorDetails string string string string
  | BodyErrorDetails string string string error_obj
  | RawResponse chat_completion

datatype ExecutionError =
    ModelError string json string details
  | ToolError string string string

fun error_kind :: "ExecutionError \<Rightarrow> string" where
  "error_kind (ModelError k m i ds) = k"
| "error_kind (ToolError k m t) = k"

subsection \<open>The world: stores and effect traces\<close>

text \<open>
  The handler's effects are made explicit in a world that every operation takes and
  returns:
  \<^item> \<open>arrays\<close>, the store of message arrays (transcripts), with \<open>arrays_next\<close> the next
    free address;
  \<^item> \<open>objs\<close>, the store of plain objects and arrays;
  \<^item> how many times each collaborator has been called, the MCP calls in full, the
    requests sent to the completion endpoint (each with the object store as it was
    when the request was sent), and the warnings logged.
  Logging at other levels is left out: it has no effect on any result, the values it
  serialises being taken to be ones that \<open>JSON.stringify\<close> accepts.
\<close>

datatype warning =
    FailedToFetchModelInformation string
  | FailedToParseToolArguments string string string
  | ResponseContainedErrorObject error_obj
  | FailedToParseMetadataRaw string

record world =
  arrays :: "nat \<Rightarrow> FlujoChatMessage list"
  arrays_next :: nat
  objs :: heap
  getModel_calls :: nat
  apiKey_calls :: nat
  sent :: "(request \<times> heap) list"
  mcp_calls :: "(string \<times> string \<times> json) list"
  uuids :: nat
  clock_reads :: nat
  warnings :: "warning list"

text \<open>
  The collaborators. A collaborator that is a service answers its \<open>n\<close>-th call as a
  function of \<open>n\<close> and of the arguments, so it may answer the same question differently
  each time; a rejected promise or a \<open>throw\<close> is \<open>Inl\<close>.
  \<open>resolveAndDecryptApiKey\<close> answers with the key, the empty string standing for both
  \<open>null\<close> and \<open>''''\<close>. \<open>chat_completions_create\<close> stands for building the client and calling
  \<open>openai.chat.completions.create\<close>. \<open>JSON.parse\<close> throws a \<open>SyntaxError\<close>, kept as \<open>Inl\<close>
  of its message.
\<close>

record env =
  getModel :: "nat \<Rightarrow> string \<Rightarrow> thrown + model option"
  resolveAndDecryptApiKey :: "nat \<Rightarrow> string \<Rightarrow> thrown + string"
  chat_completions_create :: "nat \<Rightarrow> heap \<Rightarrow> request \<Rightarrow> thrown + chat_completion"
  callTool :: "nat \<Rightarrow> string \<Rightarrow> string \<Rightarrow> json \<Rightarrow> thrown + mcp_result"
  uuidv4 :: "nat \<Rightarrow> string"
  Date_now :: "nat \<Rightarrow> int"
  JSON_parse :: "string \<Rightarrow> string + json"
  JSON_stringify :: "json \<Rightarrow> string"


section \<open>processToolCalls\<close>

text \<open>\<open>String.prototype.startsWith\<close>.\<close>

definition startsWith :: "string \<Rightarrow> string \<Rightarrow> bool" where
  "startsWith s p = (take (length p) s = p)"

text \<open>
  \<open>String.prototype.split\<close> with a non-empty string separator: the pieces between the
  leftmost non-overlapping occurrences of the separator. \<open>acc\<close> holds the current piece,
  reversed.
\<close>

function split_from :: "string \<Rightarrow> string \<Rightarrow> string \<Rightarrow> string list" where
  "split_from sep acc s =
     (if s = [] then [rev acc]
      else if sep \<noteq> [] \<and> take (length sep) s = sep
        then rev acc # split_from sep [] (drop (length sep) s)
      else split_from sep (hd s # acc) (tl s))"
  by pat_completeness auto
termination
  by (relation "measure (\<lambda>(sep, acc, s). length s)") auto

definition split :: "string \<Rightarrow> string \<Rightarrow> string list" where
  "split s sep = split_from sep [] s"

text \<open>The test at the head of the handoff branch.\<close>

definition isHandoff :: "string \<Rightarrow> bool" where
  "isHandoff nm = (startsWith nm ''handoff_to_'' \<or> nm = ''handoff'')"

text \<open>
  The two pushes that every branch performs: a tool-role message with a fresh id and the
  current time, and a processed-call record.
\<close>

definition pushToolResult ::
  "env \<Rightarrow> tool_call \<Rightarrow> json \<Rightarrow> string \<Rightarrow>
   FlujoChatMessage list \<times> ToolCallInfo list \<times> world \<Rightarrow>
   FlujoChatMessage list \<times> ToolCallInfo list \<times> world" where
  "pushToolResult e tc a resultContent acc =
     (case acc of (msgs, procs, w) \<Rightarrow>
        (msgs @ [\<lparr> msg_id = uuidv4 e (uuids w), msg_role = Tool, msg_content = resultContent,
                   tool_calls = None, tool_call_id = Some (tc_id tc),
                   timestamp = Date_now e (clock_reads w), processNodeId = None \<rparr>],
         procs @ [\<lparr> name = tc_name tc, args = a, call_id = tc_id tc, result = resultContent \<rparr>],
         w\<lparr> uuids := Suc (uuids w), clock_reads := Suc (clock_reads w) \<rparr>))"

text \<open>
  The body of the inner \<open>try\<close> up to the point where it either has a result content to
  push or throws: parse the arguments, take the handoff branch, or split the name and
  call the MCP service. The world records the MCP call.
\<close>

definition tryToolCall ::
  "env \<Rightarrow> tool_call \<Rightarrow> world \<Rightarrow> (thrown + json \<times> string) \<times> world" where
  "tryToolCall e tc w =
     (case JSON_parse e (tc_arguments tc) of
        Inl m \<Rightarrow> (Inl (JSError m), w)
      | Inr a \<Rightarrow>
          if isHandoff (tc_name tc)
          then (Inr (a, JSON_stringify e (JObj [(''handoff'', JBool True), (''args'', a)])), w)
          else
            let parts = split (tc_name tc) ''_-_-_'' in
            if length parts \<noteq> 3
            then (Inl (JSError (''Invalid tool name format: '' @ tc_name tc)), w)
            else
              let serverName = parts ! 1;
                  toolName = parts ! 2;
                  w' = w\<lparr> mcp_calls := mcp_calls w @ [(serverName, toolName, a)] \<rparr>
              in (case callTool e (length (mcp_calls w)) serverName toolName a of
                    Inl err \<Rightarrow> (Inl err, w')
                  | Inr r \<Rightarrow>
                      (Inr (a, if success r then JSON_stringify e (data r)
                               else ''Error: '' @ error r), w')))"

text \<open>One iteration of the \<open>for\<close> loop: the inner \<open>try\<close> and its \<open>catch\<close>.\<close>

definition processToolCall ::
  "env \<Rightarrow> tool_call \<Rightarrow> FlujoChatMessage list \<times> ToolCallInfo list \<times> world \<Rightarrow>
   FlujoChatMessage list \<times> ToolCallInfo list \<times> world" where
  "processToolCall e tc acc =
     (case acc of (msgs, procs, w) \<Rightarrow>
        (case tryToolCall e tc w of
           (Inr (a, resultContent), w') \<Rightarrow> pushToolResult e tc a resultContent (msgs, procs, w')
         | (Inl err, w') \<Rightarrow>
             pushToolResult e tc (JObj [])
               (''Error: '' @ (if instanceofError err then errorMessage err else ''Unknown error''))
               (msgs, procs, w')))"

fun processLoop ::
  "env \<Rightarrow> tool_call list \<Rightarrow> FlujoChatMessage list \<times> ToolCallInfo list \<times> world \<Rightarrow>
   FlujoChatMessage list \<times> ToolCallInfo list \<times> world" where
  "processLoop e [] acc = acc"
| "processLoop e (tc # tcs) acc = processLoop e tcs (processToolCall e tc acc)"

text \<open>
  \<open>processToolCalls\<close>. The input sequence is optional. Nothing in the loop throws past
  the inner \<open>catch\<close> on well-typed input, so the outer \<open>catch\<close> (which would build a
  \<open>tool_processing_failed\<close> error) has no branch here.
\<close>

definition processToolCalls ::
  "env \<Rightarrow> tool_call list option \<Rightarrow> world \<Rightarrow>
   (ExecutionError + ToolCallProcessingResult) \<times> world" where
  "processToolCalls e toolCalls w =
     (case toolCalls of
        None \<Rightarrow> (Inr \<lparr> toolCallMessages = [], processedToolCalls = [] \<rparr>, w)
      | Some tcs \<Rightarrow>
          if length tcs = 0
          then (Inr \<lparr> toolCallMessages = [], processedToolCalls = [] \<rparr>, w)
          else (case processLoop e tcs ([], [], w) of
                  (msgs, procs, w') \<Rightarrow>
                    (Inr \<lparr> toolCallMessages = msgs, processedToolCalls = procs \<rparr>, w')))"

section \<open>callModel and generateCompletion\<close>

subsection \<open>The heading test\<close>

text \<open>
  \<open>/^## .+says:\s*\n\n/i.test(content)\<close>, as a matcher that tries every split the regular
  expression engine can backtrack to. On code units below 256 the line terminators
  (which \<open>.\<close> does not match) are line feed and carriage return, and the white space of
  \<open>\s\<close> is tab, line feed, vertical tab, form feed, carriage return, space and no-break
  space. Ignoring case only matters for the letters of \<open>says\<close>.
\<close>

definition isLineTerminator :: "char \<Rightarrow> bool" where
  "isLineTerminator c = (c = CHR 0x0A \<or> c = CHR 0x0D)"

definition isWhiteSpace :: "char \<Rightarrow> bool" where
  "isWhiteSpace c =
     (c = CHR 0x09 \<or> c = CHR 0x0A \<or> c = CHR 0x0B \<or> c = CHR 0x0C \<or> c = CHR 0x0D \<or>
      c = CHR 0x20 \<or> c = CHR 0xA0)"

text \<open>\<open>\s*\n\n\<close> at the head of the string.\<close>

fun matchBlankLine :: "string \<Rightarrow> bool" where
  "matchBlankLine [] = False"
| "matchBlankLine (c # cs) =
     ((c = CHR 0x0A \<and> (case cs of [] \<Rightarrow> False | d # ds \<Rightarrow> d = CHR 0x0A)) \<or>
      (isWhiteSpace c \<and> matchBlankLine cs))"

text \<open>\<open>says:\s*\n\n\<close> at the head of the string, ignoring case.\<close>

definition matchSays :: "string \<Rightarrow> bool" where
  "matchSays s =
     (case s of
        c1 # c2 # c3 # c4 # c5 # rest \<Rightarrow>
          (c1 = CHR ''s'' \<or> c1 = CHR ''S'') \<and> (c2 = CHR ''a'' \<or> c2 = CHR ''A'') \<and>
          (c3 = CHR ''y'' \<or> c3 = CHR ''Y'') \<and> (c4 = CHR ''s'' \<or> c4 = CHR ''S'') \<and>
          c5 = CHR '':'' \<and> matchBlankLine rest
      | _ \<Rightarrow> False)"

text \<open>\<open>.*says:\s*\n\n\<close> at the head of the string.\<close>

fun matchDotsSays :: "string \<Rightarrow> bool" where
  "matchDotsSays [] = False"
| "matchDotsSays (c # cs) =
     (matchSays (c # cs) \<or> (\<not> isLineTerminator c \<and> matchDotsSays cs))"

definition hasHeadingPattern :: "string \<Rightarrow> bool" where
  "hasHeadingPattern content =
     (case content of
        c1 # c2 # c3 # c4 # rest \<Rightarrow>
          c1 = CHR ''#'' \<and> c2 = CHR ''#'' \<and> c3 = CHR '' '' \<and>
          \<not> isLineTerminator c4 \<and> matchDotsSays rest
      | _ \<Rightarrow> False)"

text \<open>
  The language of the regular expression, written out: \<open>## \<close>, one or more characters
  that are not line terminators, \<open>says:\<close> in any case, white space, two line feeds, and
  anything after that.
\<close>

definition saysIgnoringCase :: "string \<Rightarrow> bool" where
  "saysIgnoringCase k =
     (\<exists>c1 c2 c3 c4. k = [c1, c2, c3, c4, CHR '':''] \<and>
        (c1 = CHR ''s'' \<or> c1 = CHR ''S'') \<and> (c2 = CHR ''a'' \<or> c2 = CHR ''A'') \<and>
        (c3 = CHR ''y'' \<or> c3 = CHR ''Y'') \<and> (c4 = CHR ''s'' \<or> c4 = CHR ''S''))"

definition headingLanguage :: "string \<Rightarrow> bool" where
  "headingLanguage s =
     (\<exists>d k ws t. s = ''## '' @ d @ k @ ws @ [CHR 0x0A, CHR 0x0A] @ t \<and>
        d \<noteq> [] \<and> list_all (\<lambda>c. \<not> isLineTerminator c) d \<and>
        saysIgnoringCase k \<and> list_all isWhiteSpace ws)"

subsection \<open>Reading and writing the object store\<close>

definition alloc :: "obj \<Rightarrow> heap \<Rightarrow> nat \<times> heap" where
  "alloc ob h = (limit h, \<lparr> cells = (cells h)(limit h := ob), limit = Suc (limit h) \<rparr>)"

text \<open>
  Property read \<open>v.k\<close>: a \<open>TypeError\<close> on \<open>undefined\<close> and \<open>null\<close>; the property's value, or
  \<open>undefined\<close> when the object has none of that name; \<open>undefined\<close> on arrays and on the
  other primitives, which have no property of any name asked for here.
\<close>

definition getProp :: "heap \<Rightarrow> val \<Rightarrow> string \<Rightarrow> thrown + val" where
  "getProp h v k =
     (case v of
        Undefined \<Rightarrow> Inl (JSError (''Cannot read properties of undefined (reading '' @ k @ '')''))
      | Null \<Rightarrow> Inl (JSError (''Cannot read properties of null (reading '' @ k @ '')''))
      | Ref a \<Rightarrow>
          (case cells h a of
             Obj ps \<Rightarrow> Inr (case map_of ps k of Some x \<Rightarrow> x | None \<Rightarrow> Undefined)
           | Arr xs \<Rightarrow> Inr Undefined)
      | _ \<Rightarrow> Inr Undefined)"

fun truthy :: "val \<Rightarrow> bool" where
  "truthy Undefined = False"
| "truthy Null = False"
| "truthy (Bool b) = b"
| "truthy (Num r) = (r \<noteq> 0)"
| "truthy (Str s) = (s \<noteq> [])"
| "truthy (Ref a) = True"

text \<open>\<open>typeof v === 'object'\<close>.\<close>

fun typeofObject :: "val \<Rightarrow> bool" where
  "typeofObject Null = True"
| "typeofObject (Ref a) = True"
| "typeofObject v = False"

text \<open>
  The own properties that a spread \<open>{ ...v }\<close> copies. Every spread of the handler is of
  a value that has passed the guard of the patch and is therefore an object.
\<close>

definition ownProps :: "heap \<Rightarrow> val \<Rightarrow> (string \<times> val) list" where
  "ownProps h v =
     (case v of
        Ref a \<Rightarrow> (case cells h a of Obj ps \<Rightarrow> ps | Arr xs \<Rightarrow> [])
      | _ \<Rightarrow> [])"

text \<open>Assignment \<open>o.k = v\<close> and \<open>delete o.k\<close> on the object at an address; \<open>push\<close> on the
  array at an address.\<close>

definition setProp :: "nat \<Rightarrow> string \<Rightarrow> val \<Rightarrow> heap \<Rightarrow> heap" where
  "setProp a k v h =
     h\<lparr> cells := (cells h)(a := (case cells h a of
                                    Obj ps \<Rightarrow> Obj (AList.update k v ps)
                                  | Arr xs \<Rightarrow> Arr xs)) \<rparr>"

definition deleteProp :: "nat \<Rightarrow> string \<Rightarrow> heap \<Rightarrow> heap" where
  "deleteProp a k h =
     h\<lparr> cells := (cells h)(a := (case cells h a of
                                    Obj ps \<Rightarrow> Obj (AList.delete k ps)
                                  | Arr xs \<Rightarrow> Arr xs)) \<rparr>"

definition arrayPush :: "nat \<Rightarrow> val \<Rightarrow> heap \<Rightarrow> heap" where
  "arrayPush a v h =
     h\<lparr> cells := (cells h)(a := (case cells h a of
                                    Arr xs \<Rightarrow> Arr (xs @ [v])
                                  | Obj ps \<Rightarrow> Obj ps)) \<rparr>"

subsection \<open>The tool schema patch\<close>

text \<open>
  The body of the patch: copies of \<open>params\<close>, \<open>props\<close> and \<open>props.imageUrl\<close>, the \<open>format\<close>
  deleted from the copy, the copies linked, and a new tool object with a new function
  object around them.
\<close>

definition copyWithoutFormat ::
  "val \<Rightarrow> val \<Rightarrow> val \<Rightarrow> val \<Rightarrow> val \<Rightarrow> heap \<Rightarrow> val \<times> heap" where
  "copyWithoutFormat tool fn params props imageUrl h0 =
     (case alloc (Obj (ownProps h0 params)) h0 of (mutableParams, h1) \<Rightarrow>
     (case alloc (Obj (ownProps h1 props)) h1 of (mutableProps, h2) \<Rightarrow>
     (case alloc (Obj (ownProps h2 imageUrl)) h2 of (mutableImageUrl, h3) \<Rightarrow>
     (let h4 = deleteProp mutableImageUrl ''format'' h3;
          h5 = setProp mutableProps ''imageUrl'' (Ref mutableImageUrl) h4;
          h6 = setProp mutableParams ''properties'' (Ref mutableProps) h5
      in
     (case alloc (Obj (ownProps h6 tool)) h6 of (newTool, h7) \<Rightarrow>
     (case alloc (Obj (ownProps h7 fn)) h7 of (newFunction, h8) \<Rightarrow>
     (let h9 = setProp newFunction ''parameters'' (Ref mutableParams) h8;
          h10 = setProp newTool ''function'' (Ref newFunction) h9
      in (Ref newTool, h10))))))))"

text \<open>The callback of \<open>tools.map\<close>: the guard, with \<open>&&\<close> evaluated left to right, then the
  body or the original tool.\<close>

definition patchTool :: "val \<Rightarrow> heap \<Rightarrow> (thrown + val) \<times> heap" where
  "patchTool tool h =
     (case getProp h tool ''type'' of Inl err \<Rightarrow> (Inl err, h) | Inr ty \<Rightarrow>
      (if ty = Str ''function'' then
        (case getProp h tool ''function'' of Inl err \<Rightarrow> (Inl err, h) | Inr fn \<Rightarrow>
        (case getProp h fn ''parameters'' of Inl err \<Rightarrow> (Inl err, h) | Inr params \<Rightarrow>
         (if truthy params \<and> typeofObject params then
           (case getProp h params ''properties'' of Inl err \<Rightarrow> (Inl err, h) | Inr props \<Rightarrow>
            (if truthy props \<and> typeofObject props then
              (case getProp h props ''imageUrl'' of Inl err \<Rightarrow> (Inl err, h) | Inr imageUrl \<Rightarrow>
               (if truthy imageUrl \<and> typeofObject imageUrl then
                 (case getProp h imageUrl ''type'' of Inl err \<Rightarrow> (Inl err, h) | Inr ity \<Rightarrow>
                  (if ity = Str ''string'' then
                    (case getProp h imageUrl ''format'' of Inl err \<Rightarrow> (Inl err, h) | Inr fmt \<Rightarrow>
                     (if truthy fmt
                      then (case copyWithoutFormat tool fn params props imageUrl h of
                              (patched, h') \<Rightarrow> (Inr patched, h'))
                      else (Inr tool, h)))
                   else (Inr tool, h)))
                else (Inr tool, h)))
             else (Inr tool, h)))
          else (Inr tool, h))))
       else (Inr tool, h)))"

text \<open>\<open>tools.map(callback)\<close>: a new array, filled in order; a throw of the callback ends
  the loop.\<close>

fun patchLoop :: "nat \<Rightarrow> val list \<Rightarrow> heap \<Rightarrow> (thrown + unit) \<times> heap" where
  "patchLoop patchedTools [] h = (Inr (), h)"
| "patchLoop patchedTools (tool # rest) h =
     (case patchTool tool h of
        (Inl err, h') \<Rightarrow> (Inl err, h')
      | (Inr patched, h') \<Rightarrow> patchLoop patchedTools rest (arrayPush patchedTools patched h'))"

definition patchTools :: "val list \<Rightarrow> heap \<Rightarrow> (thrown + val) \<times> heap" where
  "patchTools ts h =
     (case alloc (Arr []) h of (patchedTools, h1) \<Rightarrow>
        (case patchLoop patchedTools ts h1 of
           (Inl err, h2) \<Rightarrow> (Inl err, h2)
         | (Inr u, h2) \<Rightarrow> (Inr (Ref patchedTools), h2)))"

text \<open>\<open>if (tools && tools.length > 0) { ... requestParams.tools = patchedTools }\<close>; the
  result is the \<open>tools\<close> of the request, if any.\<close>

definition prepareTools :: "nat option \<Rightarrow> heap \<Rightarrow> (thrown + val option) \<times> heap" where
  "prepareTools tls h =
     (case tls of
        None \<Rightarrow> (Inr None, h)
      | Some a \<Rightarrow>
          (case cells h a of
             Arr ts \<Rightarrow>
               (if length ts > 0
                then (case patchTools ts h of
                        (Inl err, h') \<Rightarrow> (Inl err, h')
                      | (Inr patched, h') \<Rightarrow> (Inr (Some patched), h'))
                else (Inr None, h))
           | Obj ps \<Rightarrow> (Inr None, h)))"

subsection \<open>The transcript store\<close>

text \<open>\<open>[...messages]\<close>: a new array with the same elements; \<open>push\<close> on the array at an address.\<close>

definition copyMessages :: "nat \<Rightarrow> world \<Rightarrow> nat \<times> world" where
  "copyMessages a w =
     (arrays_next w,
      w\<lparr> arrays := (arrays w)(arrays_next w := arrays w a),
         arrays_next := Suc (arrays_next w) \<rparr>)"

definition pushMessage :: "nat \<Rightarrow> FlujoChatMessage \<Rightarrow> world \<Rightarrow> world" where
  "pushMessage a m w = w\<lparr> arrays := (arrays w)(a := arrays w a @ [m]) \<rparr>"

subsection \<open>generateCompletion\<close>

text \<open>\<open>ModelCallInput\<close> and \<open>ModelCallResult\<close>; \<open>messages\<close> is the address of the transcript,
  \<open>tools\<close> the address of the tool schema array when one is given.\<close>

record ModelCallInput =
  modelId :: string
  prompt :: string
  messages :: nat
  tools :: "nat option"
  nodeName :: string
  nodeId :: "string option"

record ModelCallResult =
  mcr_content :: string
  mcr_messages :: nat
  fullResponse :: chat_completion
  toolCalls :: "ToolCallInfo list option"

definition stripTimestamp :: "FlujoChatMessage \<Rightarrow> api_message" where
  "stripTimestamp m =
     \<lparr> am_id = msg_id m, am_role = msg_role m, am_content = msg_content m,
       am_tool_calls = tool_calls m, am_tool_call_id = tool_call_id m,
       am_processNodeId = processNodeId m \<rparr>"

text \<open>The \<open>catch\<close> of \<open>generateCompletion\<close>: an \<open>APIError\<close> becomes \<open>api_error\<close>, anything else
  \<open>unknown_error\<close>.\<close>

fun classifyThrown :: "string \<Rightarrow> thrown \<Rightarrow> ExecutionError" where
  "classifyThrown mid (APIError m st ty co pa) =
     ModelError ''api_error'' (JStr m) mid (APIErrorDetails st ty co pa)"
| "classifyThrown mid (JSError m) = ModelError ''unknown_error'' (JStr m) mid NoDetails"
| "classifyThrown mid (NonError s) = ModelError ''unknown_error'' (JStr s) mid NoDetails"

text \<open>Optional property read \<open>j?.k\<close> on a parsed value, and truthiness of a parsed value.\<close>

fun jsonProp :: "json \<Rightarrow> string \<Rightarrow> json option" where
  "jsonProp (JObj ps) k = map_of ps k"
| "jsonProp j k = None"

fun jsonTruthy :: "json \<Rightarrow> bool" where
  "jsonTruthy JNull = False"
| "jsonTruthy (JBool b) = b"
| "jsonTruthy (JNum r) = (r \<noteq> 0)"
| "jsonTruthy (JStr s) = (s \<noteq> [])"
| "jsonTruthy (JArr xs) = True"
| "jsonTruthy (JObj ps) = True"

text \<open>The soft failure: a response whose body holds an error object.\<close>

definition softFailure ::
  "env \<Rightarrow> string \<Rightarrow> error_obj \<Rightarrow> world \<Rightarrow> (ExecutionError + ModelCallResult) \<times> world" where
  "softFailure e mid errorObj w =
     (let w1 = w\<lparr> warnings := warnings w @ [ResponseContainedErrorObject errorObj] \<rparr>;
          topLevel =
            (case eo_message errorObj of
               Some m \<Rightarrow>
                 (if m \<noteq> [] then JStr m
                  else JStr ''Provider returned an unspecified error in the response body.'')
             | None \<Rightarrow> JStr ''Provider returned an unspecified error in the response body.'');
          extraction =
            (case eo_metadata_raw errorObj of
               None \<Rightarrow> (topLevel, w1)
             | Some raw \<Rightarrow>
                 (if raw = [] then (topLevel, w1)
                  else
                    (case JSON_parse e raw of
                       Inl m \<Rightarrow>
                         (topLevel, w1\<lparr> warnings := warnings w1 @ [FailedToParseMetadataRaw m] \<rparr>)
                     | Inr rawErrorData \<Rightarrow>
                         (case jsonProp rawErrorData ''error'' of
                            None \<Rightarrow> (topLevel, w1)
                          | Some err \<Rightarrow>
                              (case jsonProp err ''message'' of
                                 None \<Rightarrow> (topLevel, w1)
                               | Some msg \<Rightarrow>
                                   (if jsonTruthy msg then (msg, w1) else (topLevel, w1)))))))
      in (case extraction of
            (detailedMessage, w2) \<Rightarrow>
              (Inl (ModelError ''api_error'' detailedMessage mid
                      (BodyErrorDetails (eo_code errorObj) (eo_type errorObj) (eo_param errorObj)
                         errorObj)),
               w2)))"

text \<open>\<open>chatCompletion?.choices?.[0]\<close>.\<close>

definition firstChoice :: "chat_completion \<Rightarrow> response_message option option" where
  "firstChoice cc =
     (case cc_choices cc of
        None \<Rightarrow> None
      | Some [] \<Rightarrow> None
      | Some (c # cs) \<Rightarrow> Some c)"

text \<open>What \<open>generateCompletion\<close> does with the response once the call has returned.\<close>

definition handleResponse ::
  "env \<Rightarrow> string \<Rightarrow> nat \<Rightarrow> chat_completion \<Rightarrow> world \<Rightarrow>
   (ExecutionError + ModelCallResult) \<times> world" where
  "handleResponse e mid msgs chatCompletion w =
     (case cc_error chatCompletion of
        Some errorObj \<Rightarrow> softFailure e mid errorObj w
      | None \<Rightarrow>
          (case firstChoice chatCompletion of
             None \<Rightarrow>
               (Inl (ModelError ''api_error''
                       (JStr ''Invalid response structure from API: Missing choices.'') mid
                       (RawResponse chatCompletion)),
                w)
           | Some choice \<Rightarrow>
               (case copyMessages msgs w of
                  (copy, w') \<Rightarrow>
                    (Inr \<lparr> mcr_content =
                             (case choice of
                                None \<Rightarrow> []
                              | Some m \<Rightarrow> (case rm_content m of None \<Rightarrow> [] | Some c \<Rightarrow> c)),
                           mcr_messages = copy,
                           fullResponse = chatCompletion,
                           toolCalls = None \<rparr>,
                     w'))))"

definition generateCompletion ::
  "env \<Rightarrow> string \<Rightarrow> string \<Rightarrow> nat \<Rightarrow> nat option \<Rightarrow> world \<Rightarrow>
   (ExecutionError + ModelCallResult) \<times> world" where
  "generateCompletion e mid prmpt msgs tls w =
     (let w1 = w\<lparr> getModel_calls := Suc (getModel_calls w) \<rparr> in
      (case getModel e (getModel_calls w) mid of
         Inl err \<Rightarrow> (Inl (classifyThrown mid err), w1)
       | Inr None \<Rightarrow>
           (Inl (ModelError ''model_not_found'' (JStr (''Model not found: '' @ mid)) mid
                   NoDetails),
            w1)
       | Inr (Some mdl) \<Rightarrow>
           (let temp = (if temperature mdl \<noteq> [] then ParseFloat (temperature mdl) else Zero);
                w2 = w1\<lparr> apiKey_calls := Suc (apiKey_calls w1) \<rparr>
            in
            (case resolveAndDecryptApiKey e (apiKey_calls w1) (ApiKey mdl) of
               Inl err \<Rightarrow> (Inl (classifyThrown mid err), w2)
             | Inr decryptedApiKey \<Rightarrow>
                 (if decryptedApiKey = []
                  then (Inl (ModelError ''api_key_error''
                               (JStr ''Failed to resolve or decrypt API key'') mid NoDetails),
                        w2)
                  else
                    (let apiMessages = map stripTimestamp (arrays w2 msgs) in
                     (case prepareTools tls (objs w2) of
                        (Inl err, h) \<Rightarrow> (Inl (classifyThrown mid err), w2\<lparr> objs := h \<rparr>)
                      | (Inr requestTools, h) \<Rightarrow>
                          (let requestParams =
                                 \<lparr> req_apiKey = decryptedApiKey, req_baseURL = baseUrl mdl,
                                   req_model = model_name mdl, req_messages = apiMessages,
                                   req_temperature = temp, req_tools = requestTools \<rparr>;
                               w3 = w2\<lparr> objs := h, sent := sent w2 @ [(requestParams, h)] \<rparr>
                           in
                           (case chat_completions_create e (length (sent w2)) h
                                   requestParams of
                              Inl err \<Rightarrow> (Inl (classifyThrown mid err), w3)
                            | Inr chatCompletion \<Rightarrow>
                                handleResponse e mid msgs chatCompletion w3)))))))))"

subsection \<open>callModel\<close>

text \<open>The first \<open>try\<close> of \<open>callModel\<close>: the display name and the technical name of the
  model, both empty when the lookup throws or finds nothing.\<close>

definition lookupDisplayNames ::
  "env \<Rightarrow> ModelCallInput \<Rightarrow> world \<Rightarrow> (string \<times> string) \<times> world" where
  "lookupDisplayNames e input w =
     (let w1 = w\<lparr> getModel_calls := Suc (getModel_calls w) \<rparr> in
      (case getModel e (getModel_calls w) (modelId input) of
         Inl err \<Rightarrow>
           (([], []),
            w1\<lparr> warnings := warnings w1 @ [FailedToFetchModelInformation (errorMessage err)] \<rparr>)
       | Inr None \<Rightarrow> (([], []), w1)
       | Inr (Some mdl) \<Rightarrow>
           ((if displayName mdl \<noteq> [] then displayName mdl else model_name mdl, model_name mdl),
            w1)))"

text \<open>\<open>fullResponse?.choices?.[0]?.message?.tool_calls\<close>.\<close>

definition responseToolCalls :: "chat_completion \<Rightarrow> tool_call list option" where
  "responseToolCalls cc =
     (case firstChoice cc of
        Some (Some m) \<Rightarrow> rm_tool_calls m
      | _ \<Rightarrow> None)"

text \<open>The callback of the extraction \<open>map\<close>: the structured descriptor of one requested
  call, and the warning logged when its arguments do not parse.\<close>

definition extractToolCall :: "env \<Rightarrow> tool_call \<Rightarrow> ToolCallInfo \<times> warning list" where
  "extractToolCall e tc =
     (case JSON_parse e (tc_arguments tc) of
        Inr a \<Rightarrow> (\<lparr> name = tc_name tc, args = a, call_id = tc_id tc, result = [] \<rparr>, [])
      | Inl m \<Rightarrow>
          (\<lparr> name = tc_name tc, args = JObj [], call_id = tc_id tc, result = [] \<rparr>,
           [FailedToParseToolArguments (tc_id tc) (tc_arguments tc) m]))"

text \<open>The heading that is put in front of the content.\<close>

definition saysPrefix :: "string \<Rightarrow> string \<Rightarrow> string \<Rightarrow> string" where
  "saysPrefix nodeDisplayName modelDisplayName modelTechnicalName =
     ''## '' @ nodeDisplayName @ '' - '' @ modelDisplayName @ '' ('' @ modelTechnicalName @
     '') says:'' @ [CHR 0x0A, CHR 0x0A]"

definition callModel ::
  "env \<Rightarrow> ModelCallInput \<Rightarrow> world \<Rightarrow> (ExecutionError + ModelCallResult) \<times> world" where
  "callModel e input w =
     (case lookupDisplayNames e input w of
        ((modelDisplayName, modelTechnicalName), w1) \<Rightarrow>
          (case generateCompletion e (modelId input) (prompt input) (messages input)
                  (tools input) w1 of
             (Inl err, w2) \<Rightarrow> (Inl err, w2)
           | (Inr modelResponse, w2) \<Rightarrow>
               (case copyMessages (messages input) w2 of
                  (finalMessages, w3) \<Rightarrow>
                   (let content = mcr_content modelResponse;
                        prefixedContent =
                          (if modelDisplayName \<noteq> [] \<and> \<not> hasHeadingPattern content
                           then saysPrefix (nodeName input) modelDisplayName modelTechnicalName
                                @ content
                           else content);
                        requested = responseToolCalls (fullResponse modelResponse);
                        assistantMessage =
                          \<lparr> msg_id = uuidv4 e (uuids w3), msg_role = Assistant,
                            msg_content = prefixedContent, tool_calls = requested,
                            tool_call_id = None, timestamp = Date_now e (clock_reads w3),
                            processNodeId = nodeId input \<rparr>;
                        w4 = pushMessage finalMessages assistantMessage
                               (w3\<lparr> uuids := Suc (uuids w3),
                                    clock_reads := Suc (clock_reads w3) \<rparr>);
                        extracted = map_option (map (extractToolCall e)) requested;
                        w5 = w4\<lparr> warnings := warnings w4 @
                                   (case extracted of
                                      None \<Rightarrow> []
                                    | Some xs \<Rightarrow> concat (map snd xs)) \<rparr>
                    in (Inr \<lparr> mcr_content = prefixedContent,
                              mcr_messages = finalMessages,
                              fullResponse = fullResponse modelResponse,
                              toolCalls = map_option (map fst) extracted \<rparr>,
                        w5)))))"

subsection \<open>Reading a tool schema in a store\<close>

text \<open>
  The value of property \<open>k\<close> of \<open>v\<close> in a store, \<open>undefined\<close> where there is none; the
  \<open>imageUrl\<close> parameter schema of a tool, \<open>tool.function.parameters.properties.imageUrl\<close>;
  and whether a value is a reference to a cell in use.
\<close>

definition propertyOf :: "heap \<Rightarrow> val \<Rightarrow> string \<Rightarrow> val" where
  "propertyOf h v k = (case getProp h v k of Inr x \<Rightarrow> x | Inl err \<Rightarrow> Undefined)"

definition parametersOf :: "heap \<Rightarrow> val \<Rightarrow> val" where
  "parametersOf h tool = propertyOf h (propertyOf h tool ''function'') ''parameters''"

definition propertiesOf :: "heap \<Rightarrow> val \<Rightarrow> val" where
  "propertiesOf h tool = propertyOf h (parametersOf h tool) ''properties''"

definition imageUrlOf :: "heap \<Rightarrow> val \<Rightarrow> val" where
  "imageUrlOf h tool = propertyOf h (propertiesOf h tool) ''imageUrl''"

fun allocated :: "heap \<Rightarrow> val \<Rightarrow> bool" where
  "allocated h (Ref a) = (a < limit h)"
| "allocated h v = False"

text \<open>
  The state of the loop when it reaches the \<open>i\<close>-th requested call: the messages and
  records pushed so far and the world, and the world alone.
\<close>

definition stateBefore ::
  "env \<Rightarrow> tool_call list \<Rightarrow> nat \<Rightarrow> world \<Rightarrow>
   FlujoChatMessage list \<times> ToolCallInfo list \<times> world" where
  "stateBefore e tcs i w = processLoop e (take i tcs) ([], [], w)"

definition worldBefore :: "env \<Rightarrow> tool_call list \<Rightarrow> nat \<Rightarrow> world \<Rightarrow> world" where
  "worldBefore e tcs i w = snd (snd (stateBefore e tcs i w))"

section \<open>Concrete collaborators for the examples\<close>

text \<open>
  Stand-ins for the collaborators that answer as in the examples of the specification;
  they are used only to run the handler on concrete inputs.
\<close>

definition demo_parse :: "string \<Rightarrow> string + json" where
  \<open>demo_parse s =
     (if s = ''{"x":1}'' then Inr (JObj [(''x'', JNum 1)])
      else if s = ''{"q":"x"}'' then Inr (JObj [(''q'', JStr ''x'')])
      else if s = ''{}'' then Inr (JObj [])
      else Inl ''Unexpected token in JSON'')\<close>

definition demo_stringify :: "json \<Rightarrow> string" where
  \<open>demo_stringify j =
     (if j = JObj [(''handoff'', JBool True), (''args'', JObj [(''x'', JNum 1)])]
        then ''{"handoff":true,"args":{"x":1}}''
      else if j = JObj [(''hits'', JNum 3)] then ''{"hits":3}''
      else ''null'')\<close>

definition demo_callTool :: "nat \<Rightarrow> string \<Rightarrow> string \<Rightarrow> json \<Rightarrow> thrown + mcp_result" where
  "demo_callTool n serverName toolName a =
     (if serverName = ''search'' \<and> toolName = ''lookup''
        then Inr \<lparr> success = True, data = JObj [(''hits'', JNum 3)], error = [] \<rparr>
      else if serverName = ''search''
        then Inr \<lparr> success = False, data = JNull, error = ''no such tool'' \<rparr>
      else Inl (JSError ''server not connected''))"

definition demo_uuid :: "nat \<Rightarrow> string" where
  "demo_uuid n = replicate (Suc n) CHR ''u''"

definition demo_now :: "nat \<Rightarrow> int" where
  "demo_now n = 1700000000000 + int n"

definition demo_model :: model where
  "demo_model = \<lparr> displayName = ''Fast'', model_name = ''gpt-x'', temperature = ''0.2'',
                   ApiKey = ''key-ref'', baseUrl = ''https://api.example'' \<rparr>"

definition demo_getModel :: "nat \<Rightarrow> string \<Rightarrow> thrown + model option" where
  "demo_getModel n mid = Inr (Some demo_model)"

definition demo_resolveKey :: "nat \<Rightarrow> string \<Rightarrow> thrown + string" where
  "demo_resolveKey n ref = Inr ''secret''"

definition demo_completion :: chat_completion where
  \<open>demo_completion =
     \<lparr> cc_error = None,
       cc_choices = Some [Some \<lparr> rm_content = Some ''Hello'',
         rm_tool_calls = Some [\<lparr> tc_id = ''c1'', tc_name = ''_-_-_search_-_-_lookup'',
                                 tc_arguments = ''{"q":"x"}'' \<rparr>,
                               \<lparr> tc_id = ''c2'', tc_name = ''handoff'',
                                 tc_arguments = ''{bad'' \<rparr>] \<rparr>] \<rparr>\<close>

definition demo_create :: "nat \<Rightarrow> heap \<Rightarrow> request \<Rightarrow> thrown + chat_completion" where
  "demo_create n h rq = Inr demo_completion"

definition demo_env :: env where
  "demo_env = \<lparr> getModel = demo_getModel, resolveAndDecryptApiKey = demo_resolveKey,
                 chat_completions_create = demo_create, callTool = demo_callTool,
                 uuidv4 = demo_uuid, Date_now = demo_now,
                 JSON_parse = demo_parse, JSON_stringify = demo_stringify \<rparr>"

definition world0 :: world where
  "world0 = \<lparr> arrays = (\<lambda>a. []), arrays_next = 0,
           objs = \<lparr> cells = (\<lambda>a. Obj []), limit = 0 \<rparr>,
           getModel_calls = 0, apiKey_calls = 0, sent = [], mcp_calls = [],
           uuids = 0, clock_reads = 0, warnings = [] \<rparr>"

definition call_search :: tool_call where
  \<open>call_search = \<lparr> tc_id = ''c1'', tc_name = ''_-_-_search_-_-_lookup'',
                    tc_arguments = ''{"q":"x"}'' \<rparr>\<close>

definition call_missing :: tool_call where
  \<open>call_missing = \<lparr> tc_id = ''c2'', tc_name = ''_-_-_search_-_-_nothing'',
                     tc_arguments = ''{}'' \<rparr>\<close>

definition call_handoff :: tool_call where
  \<open>call_handoff = \<lparr> tc_id = ''c3'', tc_name = ''handoff_to_billing'',
                     tc_arguments = ''{"x":1}'' \<rparr>\<close>

definition call_badname :: tool_call where
  \<open>call_badname = \<lparr> tc_id = ''c4'', tc_name = ''search_-_-_lookup'',
                     tc_arguments = ''{}'' \<rparr>\<close>

definition call_badargs :: tool_call where
  \<open>call_badargs = \<lparr> tc_id = ''c5'', tc_name = ''_-_-_search_-_-_lookup'',
                     tc_arguments = ''{bad'' \<rparr>\<close>

definition demo_calls :: "tool_call list" where
  "demo_calls = [call_search, call_missing, call_handoff, call_badname, call_badargs]"

text \<open>A transcript of one user message at address \<open>0\<close>, an input that refers to it, and a
  model catalog whose first lookup fails.\<close>

definition user_message :: FlujoChatMessage where
  "user_message =
     \<lparr> msg_id = ''m-1'', msg_role = User, msg_content = ''Find x'', tool_calls = None,
       tool_call_id = None, timestamp = 1699999999000, processNodeId = None \<rparr>"

definition world1 :: world where
  "world1 = world0\<lparr> arrays := (\<lambda>a. [])(0 := [user_message]), arrays_next := 1 \<rparr>"

definition demo_input :: ModelCallInput where
  "demo_input =
     \<lparr> modelId = ''model-1'', prompt = ''You are helpful'', messages = 0, tools = None,
       nodeName = ''Planner'', nodeId = Some ''node-7'' \<rparr>"

definition demo_getModel_transient :: "nat \<Rightarrow> string \<Rightarrow> thrown + model option" where
  "demo_getModel_transient n mid =
     (if n = 0 then Inl (JSError ''catalog offline'') else Inr (Some demo_model))"

definition demo_env_transient :: env where
  "demo_env_transient = demo_env\<lparr> getModel := demo_getModel_transient \<rparr>"

text \<open>
  A store with two tool schemas, the array of both at address \<open>0\<close>: \<open>show_image\<close>, whose
  \<open>imageUrl\<close> parameter is a string with format \<open>uri\<close>, and \<open>ping\<close>, which has no
  parameters.
\<close>

definition demo_heap :: heap where
  "demo_heap =
     \<lparr> cells = (\<lambda>a. Obj [])
         (0 := Arr [Ref 1, Ref 6],
          1 := Obj [(''type'', Str ''function''), (''function'', Ref 2)],
          2 := Obj [(''name'', Str ''show_image''), (''parameters'', Ref 3)],
          3 := Obj [(''type'', Str ''object''), (''properties'', Ref 4)],
          4 := Obj [(''imageUrl'', Ref 5), (''caption'', Ref 7)],
          5 := Obj [(''type'', Str ''string''), (''format'', Str ''uri'')],
          6 := Obj [(''type'', Str ''function''), (''function'', Ref 8)],
          7 := Obj [(''type'', Str ''string'')],
          8 := Obj [(''name'', Str ''ping'')]),
       limit = 9 \<rparr>"

definition world2 :: world where
  "world2 = world1\<lparr> objs := demo_heap \<rparr>"

section \<open>Properties of processToolCalls\<close>

subsection \<open>The loop pushes one message and one record per requested call\<close>

lemma processToolCall_acc:
  "processToolCall e tc (msgs, procs, w) =
     (case processToolCall e tc ([], [], w) of (ms, ps, w') \<Rightarrow> (msgs @ ms, procs @ ps, w'))"
  by (simp add: processToolCall_def pushToolResult_def split: prod.splits sum.splits)

lemma processToolCall_single:
  "\<exists>m p w'. processToolCall e tc ([], [], w) = ([m], [p], w') \<and>
     msg_role m = Tool \<and> tool_call_id m = Some (tc_id tc) \<and>
     call_id p = tc_id tc \<and> name p = tc_name tc \<and> result p = msg_content m"
  by (simp add: processToolCall_def pushToolResult_def split: prod.splits sum.splits)

lemma processLoop_append:
  "processLoop e (xs @ ys) acc = processLoop e ys (processLoop e xs acc)"
  by (induction xs arbitrary: acc) simp_all

lemma processLoop_acc:
  "processLoop e tcs (msgs, procs, w) =
     (case processLoop e tcs ([], [], w) of (ms, ps, w') \<Rightarrow> (msgs @ ms, procs @ ps, w'))"
proof (induction tcs arbitrary: msgs procs w)
  case Nil
  then show ?case by simp
next
  case (Cons tc tcs)
  obtain m p w1 where s: "processToolCall e tc ([], [], w) = ([m], [p], w1)"
    using processToolCall_single by blast
  have "processToolCall e tc (msgs, procs, w) = (msgs @ [m], procs @ [p], w1)"
    using processToolCall_acc [of e tc msgs procs w] s by simp
  then show ?case
    using s Cons.IH [of "msgs @ [m]" "procs @ [p]" w1] Cons.IH [of "[m]" "[p]" w1]
    by (simp split: prod.splits)
qed

lemma processLoop_length:
  "processLoop e tcs ([], [], w) = (msgs, procs, w') \<Longrightarrow>
     length msgs = length tcs \<and> length procs = length tcs"
proof (induction tcs arbitrary: msgs procs w w' rule: rev_induct)
  case Nil
  then show ?case by simp
next
  case (snoc tc tcs)
  obtain ms ps w1 where l: "processLoop e tcs ([], [], w) = (ms, ps, w1)"
    by (metis prod_cases3)
  obtain m p w2 where s: "processToolCall e tc ([], [], w1) = ([m], [p], w2)"
    using processToolCall_single by blast
  have "processLoop e (tcs @ [tc]) ([], [], w) = (ms @ [m], ps @ [p], w2)"
    using l s processToolCall_acc [of e tc ms ps w1] by (simp add: processLoop_append)
  then show ?case using snoc l by auto
qed

text \<open>
  The \<open>i\<close>-th message and record of the final result are the ones pushed by the \<open>i\<close>-th
  iteration, run in the world the loop had reached by then.
\<close>

lemma processLoop_nth:
  assumes "i < length tcs" and "processLoop e tcs ([], [], w) = (msgs, procs, w')"
  shows "processToolCall e (tcs ! i) ([], [], worldBefore e tcs i w) =
           ([msgs ! i], [procs ! i], worldBefore e tcs (Suc i) w)"
proof -
  obtain ms ps w1 where l: "processLoop e (take i tcs) ([], [], w) = (ms, ps, w1)"
    by (metis prod_cases3)
  obtain m p w2 where s: "processToolCall e (tcs ! i) ([], [], w1) = ([m], [p], w2)"
    using processToolCall_single by blast
  have len: "length ms = i" "length ps = i"
    using processLoop_length [OF l] assms(1) by simp_all
  have t: "take (Suc i) tcs = take i tcs @ [tcs ! i]"
    using assms(1) by (simp add: take_Suc_conv_app_nth)
  have l2: "processLoop e (take (Suc i) tcs) ([], [], w) = (ms @ [m], ps @ [p], w2)"
    using l s processToolCall_acc [of e "tcs ! i" ms ps w1] by (simp add: t processLoop_append)
  obtain ms3 ps3 w3 where l3:
    "processLoop e (drop (Suc i) tcs) ([], [], w2) = (ms3, ps3, w3)"
    by (metis prod_cases3)
  have "tcs = take (Suc i) tcs @ drop (Suc i) tcs" by simp
  then have "processLoop e tcs ([], [], w) =
      processLoop e (drop (Suc i) tcs) (ms @ [m], ps @ [p], w2)"
    using l2 processLoop_append [of e "take (Suc i) tcs" "drop (Suc i) tcs" "([], [], w)"] by simp
  also have "\<dots> = (ms @ [m] @ ms3, ps @ [p] @ ps3, w3)"
    using processLoop_acc [of e "drop (Suc i) tcs" "ms @ [m]" "ps @ [p]" w2] l3 by simp
  finally have "msgs = ms @ [m] @ ms3" "procs = ps @ [p] @ ps3"
    using assms(2) by simp_all
  then have "msgs ! i = m" "procs ! i = p"
    using len by (simp_all add: nth_append)
  then show ?thesis
    using s l l2 by (simp add: worldBefore_def stateBefore_def)
qed

text \<open>The \<open>i\<close>-th iteration appends exactly that message and that record to what the
  loop had pushed before.\<close>

lemma stateBefore_Suc:
  assumes "i < length tcs" and "processLoop e tcs ([], [], w) = (msgs, procs, w')"
  shows "fst (stateBefore e tcs (Suc i) w) = fst (stateBefore e tcs i w) @ [msgs ! i] \<and>
         fst (snd (stateBefore e tcs (Suc i) w)) =
           fst (snd (stateBefore e tcs i w)) @ [procs ! i]"
proof -
  obtain ms ps wi where l: "processLoop e (take i tcs) ([], [], w) = (ms, ps, wi)"
    by (metis prod_cases3)
  have wi: "worldBefore e tcs i w = wi"
    using l by (simp add: worldBefore_def stateBefore_def)
  have t: "take (Suc i) tcs = take i tcs @ [tcs ! i]"
    using assms(1) by (simp add: take_Suc_conv_app_nth)
  have "processLoop e (take (Suc i) tcs) ([], [], w) = processToolCall e (tcs ! i) (ms, ps, wi)"
    using l by (simp add: t processLoop_append)
  also have "\<dots> = (ms @ [msgs ! i], ps @ [procs ! i], worldBefore e tcs (Suc i) w)"
    using processToolCall_acc [of e "tcs ! i" ms ps wi] processLoop_nth [OF assms] wi by simp
  finally show ?thesis using l by (simp add: stateBefore_def)
qed

text \<open>
  On a non-empty request sequence the dispatcher succeeds; its two result sequences are
  as long as the request sequence, and their \<open>i\<close>-th entries answer the \<open>i\<close>-th call.
\<close>

lemma processToolCalls_shape:
  assumes "tcs \<noteq> []"
  shows "\<exists>r w'. processToolCalls e (Some tcs) w = (Inr r, w') \<and>
           processLoop e tcs ([], [], w) = (toolCallMessages r, processedToolCalls r, w') \<and>
           length (toolCallMessages r) = length tcs \<and>
           length (processedToolCalls r) = length tcs \<and>
           map tool_call_id (toolCallMessages r) = map (\<lambda>tc. Some (tc_id tc)) tcs \<and>
           map msg_role (toolCallMessages r) = replicate (length tcs) Tool \<and>
           map call_id (processedToolCalls r) = map tc_id tcs \<and>
           map name (processedToolCalls r) = map tc_name tcs"
proof -
  obtain msgs procs w' where l: "processLoop e tcs ([], [], w) = (msgs, procs, w')"
    by (metis prod_cases3)
  have len: "length msgs = length tcs" "length procs = length tcs"
    using processLoop_length [OF l] by simp_all
  have nth: "tool_call_id (msgs ! i) = Some (tc_id (tcs ! i)) \<and> msg_role (msgs ! i) = Tool \<and>
             call_id (procs ! i) = tc_id (tcs ! i) \<and> name (procs ! i) = tc_name (tcs ! i)"
    if "i < length tcs" for i
    using processLoop_nth [OF that l]
      processToolCall_single [of e "tcs ! i" "worldBefore e tcs i w"]
    by auto
  have "map tool_call_id msgs = map (\<lambda>tc. Some (tc_id tc)) tcs"
    using len nth by (intro nth_equalityI) simp_all
  moreover have "map msg_role msgs = replicate (length tcs) Tool"
    using len nth by (intro nth_equalityI) simp_all
  moreover have "map call_id procs = map tc_id tcs"
    using len nth by (intro nth_equalityI) simp_all
  moreover have "map name procs = map tc_name tcs"
    using len nth by (intro nth_equalityI) simp_all
  moreover have "processToolCalls e (Some tcs) w =
      (Inr \<lparr> toolCallMessages = msgs, processedToolCalls = procs \<rparr>, w')"
    using assms l by (simp add: processToolCalls_def)
  ultimately show ?thesis using l len by simp
qed

subsection \<open>What one iteration pushes, branch by branch\<close>

lemma processToolCall_parse_failure:
  assumes "JSON_parse e (tc_arguments tc) = Inl m"
  shows "processToolCall e tc ([], [], w) =
           ([\<lparr> msg_id = uuidv4 e (uuids w), msg_role = Tool, msg_content = ''Error: '' @ m,
               tool_calls = None, tool_call_id = Some (tc_id tc),
               timestamp = Date_now e (clock_reads w), processNodeId = None \<rparr>],
            [\<lparr> name = tc_name tc, args = JObj [], call_id = tc_id tc,
               result = ''Error: '' @ m \<rparr>],
            w\<lparr> uuids := Suc (uuids w), clock_reads := Suc (clock_reads w) \<rparr>)"
  using assms by (simp add: processToolCall_def tryToolCall_def pushToolResult_def)

lemma processToolCall_handoff:
  assumes "JSON_parse e (tc_arguments tc) = Inr a" and "isHandoff (tc_name tc)"
  shows "processToolCall e tc ([], [], w) =
           ([\<lparr> msg_id = uuidv4 e (uuids w), msg_role = Tool,
               msg_content = JSON_stringify e (JObj [(''handoff'', JBool True), (''args'', a)]),
               tool_calls = None, tool_call_id = Some (tc_id tc),
               timestamp = Date_now e (clock_reads w), processNodeId = None \<rparr>],
            [\<lparr> name = tc_name tc, args = a, call_id = tc_id tc,
               result = JSON_stringify e (JObj [(''handoff'', JBool True), (''args'', a)]) \<rparr>],
            w\<lparr> uuids := Suc (uuids w), clock_reads := Suc (clock_reads w) \<rparr>)"
  using assms by (simp add: processToolCall_def tryToolCall_def pushToolResult_def)

lemma processToolCall_invalid_name:
  assumes "JSON_parse e (tc_arguments tc) = Inr a" and "\<not> isHandoff (tc_name tc)"
    and "length (split (tc_name tc) ''_-_-_'') \<noteq> 3"
  shows "processToolCall e tc ([], [], w) =
           ([\<lparr> msg_id = uuidv4 e (uuids w), msg_role = Tool,
               msg_content = ''Error: Invalid tool name format: '' @ tc_name tc,
               tool_calls = None, tool_call_id = Some (tc_id tc),
               timestamp = Date_now e (clock_reads w), processNodeId = None \<rparr>],
            [\<lparr> name = tc_name tc, args = JObj [], call_id = tc_id tc,
               result = ''Error: Invalid tool name format: '' @ tc_name tc \<rparr>],
            w\<lparr> uuids := Suc (uuids w), clock_reads := Suc (clock_reads w) \<rparr>)"
  using assms by (simp add: processToolCall_def tryToolCall_def pushToolResult_def)

lemma processToolCall_mcp:
  assumes "JSON_parse e (tc_arguments tc) = Inr a" and "\<not> isHandoff (tc_name tc)"
    and "length (split (tc_name tc) ''_-_-_'') = 3"
  shows "processToolCall e tc ([], [], w) =
           (let serverName = split (tc_name tc) ''_-_-_'' ! 1;
                toolName = split (tc_name tc) ''_-_-_'' ! 2;
                answer = callTool e (length (mcp_calls w)) serverName toolName a;
                resultContent =
                  (case answer of
                     Inr r \<Rightarrow> if success r then JSON_stringify e (data r)
                              else ''Error: '' @ error r
                   | Inl err \<Rightarrow> ''Error: '' @
                       (if instanceofError err then errorMessage err else ''Unknown error''))
            in ([\<lparr> msg_id = uuidv4 e (uuids w), msg_role = Tool, msg_content = resultContent,
                   tool_calls = None, tool_call_id = Some (tc_id tc),
                   timestamp = Date_now e (clock_reads w), processNodeId = None \<rparr>],
                [\<lparr> name = tc_name tc, args = (case answer of Inr r \<Rightarrow> a | Inl err \<Rightarrow> JObj []),
                   call_id = tc_id tc, result = resultContent \<rparr>],
                w\<lparr> mcp_calls := mcp_calls w @ [(serverName, toolName, a)],
                   uuids := Suc (uuids w), clock_reads := Suc (clock_reads w) \<rparr>))"
  using assms
  by (simp add: processToolCall_def tryToolCall_def pushToolResult_def Let_def
      split: sum.splits)

subsection \<open>The claims about the dispatcher\<close>

text \<open>
  C9. For an absent or empty requested-tool-call sequence, \<open>processToolCalls\<close> returns at
  once a success whose \<open>toolCallMessages\<close> and \<open>processedToolCalls\<close> are both empty, and
  the world is the one it was given: no collaborator has been called.
\<close>

theorem empty_request_sequence:
  "processToolCalls e None w =
     (Inr \<lparr> toolCallMessages = [], processedToolCalls = [] \<rparr>, w) \<and>
   processToolCalls e (Some []) w =
     (Inr \<lparr> toolCallMessages = [], processedToolCalls = [] \<rparr>, w)"
  by (simp add: processToolCalls_def)

theorem empty_request_sequence_witness:
  "processToolCalls demo_env (Some []) world0 =
     (Inr \<lparr> toolCallMessages = [], processedToolCalls = [] \<rparr>, world0) \<and>
   mcp_calls (snd (processToolCalls demo_env None world0)) = []"
  using empty_request_sequence [of demo_env world0] by (simp add: world0_def)

text \<open>
  C6. A requested call whose name starts with \<open>handoff_to_\<close> or is exactly \<open>handoff\<close>, and
  whose argument string parses, is handled locally and succeeds: the dispatcher returns a
  success with one message and one record per requested call; at the call's position the
  message is a tool-role message with the call's id whose content is the serialisation of
  \<open>{ handoff: true, args }\<close>, the record carries the parsed arguments and the same
  content, the iteration makes no MCP call, and it appends exactly this message and this
  record to what the loop had pushed before.
\<close>

theorem handoff_handled_locally:
  assumes "i < length tcs"
    and "JSON_parse e (tc_arguments (tcs ! i)) = Inr a"
    and "startsWith (tc_name (tcs ! i)) ''handoff_to_'' \<or> tc_name (tcs ! i) = ''handoff''"
  shows "\<exists>r w'. processToolCalls e (Some tcs) w = (Inr r, w') \<and>
           length (toolCallMessages r) = length tcs \<and>
           length (processedToolCalls r) = length tcs \<and>
           toolCallMessages r ! i =
             \<lparr> msg_id = uuidv4 e (uuids (worldBefore e tcs i w)), msg_role = Tool,
               msg_content = JSON_stringify e (JObj [(''handoff'', JBool True), (''args'', a)]),
               tool_calls = None, tool_call_id = Some (tc_id (tcs ! i)),
               timestamp = Date_now e (clock_reads (worldBefore e tcs i w)),
               processNodeId = None \<rparr> \<and>
           processedToolCalls r ! i =
             \<lparr> name = tc_name (tcs ! i), args = a, call_id = tc_id (tcs ! i),
               result = JSON_stringify e (JObj [(''handoff'', JBool True), (''args'', a)]) \<rparr> \<and>
           mcp_calls (worldBefore e tcs (Suc i) w) = mcp_calls (worldBefore e tcs i w) \<and>
           fst (stateBefore e tcs (Suc i) w) =
             fst (stateBefore e tcs i w) @ [toolCallMessages r ! i] \<and>
           fst (snd (stateBefore e tcs (Suc i) w)) =
             fst (snd (stateBefore e tcs i w)) @ [processedToolCalls r ! i]"
proof -
  have ne: "tcs \<noteq> []" using assms(1) by auto
  obtain r w' where r: "processToolCalls e (Some tcs) w = (Inr r, w')"
    and l: "processLoop e tcs ([], [], w) = (toolCallMessages r, processedToolCalls r, w')"
    and len: "length (toolCallMessages r) = length tcs"
             "length (processedToolCalls r) = length tcs"
    using processToolCalls_shape [OF ne, of e w] by blast
  have h: "isHandoff (tc_name (tcs ! i))"
    using assms(3) by (simp add: isHandoff_def)
  show ?thesis
    using r len stateBefore_Suc [OF assms(1) l] processLoop_nth [OF assms(1) l, symmetric]
      processToolCall_handoff [OF assms(2) h, of "worldBefore e tcs i w"]
    by simp
qed

theorem handoff_handled_locally_witness:
  \<open>2 < length demo_calls \<and>
   JSON_parse demo_env (tc_arguments (demo_calls ! 2)) = Inr (JObj [(''x'', JNum 1)]) \<and>
   startsWith (tc_name (demo_calls ! 2)) ''handoff_to_'' \<and>
   (\<exists>r w'. processToolCalls demo_env (Some demo_calls) world0 = (Inr r, w') \<and>
      msg_content (toolCallMessages r ! 2) = ''{"handoff":true,"args":{"x":1}}'' \<and>
      tool_call_id (toolCallMessages r ! 2) = Some ''c3'' \<and>
      result (processedToolCalls r ! 2) = ''{"handoff":true,"args":{"x":1}}'' \<and>
      args (processedToolCalls r ! 2) = JObj [(''x'', JNum 1)])\<close>
proof -
  have h1: "2 < length demo_calls" by (simp add: demo_calls_def)
  have h2: \<open>JSON_parse demo_env (tc_arguments (demo_calls ! 2)) = Inr (JObj [(''x'', JNum 1)])\<close>
    by (simp add: demo_calls_def demo_env_def demo_parse_def call_handoff_def)
  have h3: "startsWith (tc_name (demo_calls ! 2)) ''handoff_to_''"
    by (simp add: demo_calls_def call_handoff_def startsWith_def)
  have h3': "startsWith (tc_name (demo_calls ! 2)) ''handoff_to_'' \<or>
             tc_name (demo_calls ! 2) = ''handoff''"
    using h3 by simp
  have s: \<open>JSON_stringify demo_env (JObj [(''handoff'', JBool True), (''args'', JObj [(''x'', JNum 1)])])
             = ''{"handoff":true,"args":{"x":1}}''\<close>
    by (simp add: demo_env_def demo_stringify_def)
  have id: "tc_id (demo_calls ! 2) = ''c3''"
    by (simp add: demo_calls_def call_handoff_def)
  show ?thesis
    using h1 h2 h3 handoff_handled_locally [OF h1 h2 h3', of world0] s id
    by auto
qed

text \<open>
  C5. A requested call whose name is not \<open>handoff\<close>, does not start with \<open>handoff_to_\<close> and
  does not split into exactly three segments on \<open>_-_-_\<close>, and whose argument string
  parses, gets an "Invalid tool name format" error result at its own position; the
  iteration makes no MCP call; and the dispatcher still returns a success with one
  message and one record for every requested call, the iteration in question having
  appended exactly one of each.
\<close>

theorem invalid_tool_name_recorded:
  assumes "i < length tcs"
    and "JSON_parse e (tc_arguments (tcs ! i)) = Inr a"
    and "tc_name (tcs ! i) \<noteq> ''handoff''"
    and "\<not> startsWith (tc_name (tcs ! i)) ''handoff_to_''"
    and "length (split (tc_name (tcs ! i)) ''_-_-_'') \<noteq> 3"
  shows "\<exists>r w'. processToolCalls e (Some tcs) w = (Inr r, w') \<and>
           length (toolCallMessages r) = length tcs \<and>
           length (processedToolCalls r) = length tcs \<and>
           map tool_call_id (toolCallMessages r) = map (\<lambda>tc. Some (tc_id tc)) tcs \<and>
           map call_id (processedToolCalls r) = map tc_id tcs \<and>
           toolCallMessages r ! i =
             \<lparr> msg_id = uuidv4 e (uuids (worldBefore e tcs i w)), msg_role = Tool,
               msg_content = ''Error: Invalid tool name format: '' @ tc_name (tcs ! i),
               tool_calls = None, tool_call_id = Some (tc_id (tcs ! i)),
               timestamp = Date_now e (clock_reads (worldBefore e tcs i w)),
               processNodeId = None \<rparr> \<and>
           processedToolCalls r ! i =
             \<lparr> name = tc_name (tcs ! i), args = JObj [], call_id = tc_id (tcs ! i),
               result = ''Error: Invalid tool name format: '' @ tc_name (tcs ! i) \<rparr> \<and>
           mcp_calls (worldBefore e tcs (Suc i) w) = mcp_calls (worldBefore e tcs i w) \<and>
           fst (stateBefore e tcs (Suc i) w) =
             fst (stateBefore e tcs i w) @ [toolCallMessages r ! i] \<and>
           fst (snd (stateBefore e tcs (Suc i) w)) =
             fst (snd (stateBefore e tcs i w)) @ [processedToolCalls r ! i]"
proof -
  have ne: "tcs \<noteq> []" using assms(1) by auto
  obtain r w' where r: "processToolCalls e (Some tcs) w = (Inr r, w')"
    and l: "processLoop e tcs ([], [], w) = (toolCallMessages r, processedToolCalls r, w')"
    and len: "length (toolCallMessages r) = length tcs"
             "length (processedToolCalls r) = length tcs"
    and ord: "map tool_call_id (toolCallMessages r) = map (\<lambda>tc. Some (tc_id tc)) tcs"
             "map call_id (processedToolCalls r) = map tc_id tcs"
    using processToolCalls_shape [OF ne, of e w] by blast
  have h: "\<not> isHandoff (tc_name (tcs ! i))"
    using assms(3,4) by (simp add: isHandoff_def)
  show ?thesis
    using r len ord stateBefore_Suc [OF assms(1) l]
      processLoop_nth [OF assms(1) l, symmetric]
      processToolCall_invalid_name [OF assms(2) h assms(5), of "worldBefore e tcs i w"]
    by simp
qed

theorem invalid_tool_name_recorded_witness:
  \<open>3 < length demo_calls \<and>
   JSON_parse demo_env (tc_arguments (demo_calls ! 3)) = Inr (JObj []) \<and>
   tc_name (demo_calls ! 3) \<noteq> ''handoff'' \<and>
   \<not> startsWith (tc_name (demo_calls ! 3)) ''handoff_to_'' \<and>
   split (tc_name (demo_calls ! 3)) ''_-_-_'' = [''search'', ''lookup''] \<and>
   (\<exists>r w'. processToolCalls demo_env (Some demo_calls) world0 = (Inr r, w') \<and>
      length (toolCallMessages r) = 5 \<and>
      msg_content (toolCallMessages r ! 3) =
        ''Error: Invalid tool name format: search_-_-_lookup'' \<and>
      tool_call_id (toolCallMessages r ! 3) = Some ''c4'' \<and>
      args (processedToolCalls r ! 3) = JObj [])\<close>
proof -
  have h1: "3 < length demo_calls" by (simp add: demo_calls_def)
  have h2: "JSON_parse demo_env (tc_arguments (demo_calls ! 3)) = Inr (JObj [])"
    by (simp add: demo_calls_def demo_env_def demo_parse_def call_badname_def)
  have h3: "tc_name (demo_calls ! 3) \<noteq> ''handoff''"
    by (simp add: demo_calls_def call_badname_def)
  have h4: "\<not> startsWith (tc_name (demo_calls ! 3)) ''handoff_to_''"
    by (simp add: demo_calls_def call_badname_def startsWith_def)
  have sp: "split (tc_name (demo_calls ! 3)) ''_-_-_'' = [''search'', ''lookup'']"
    by (simp add: demo_calls_def call_badname_def split_def)
  have h5: "length (split (tc_name (demo_calls ! 3)) ''_-_-_'') \<noteq> 3"
    by (simp add: sp)
  have nm: "tc_name (demo_calls ! 3) = ''search_-_-_lookup''" "tc_id (demo_calls ! 3) = ''c4''"
    "length demo_calls = 5"
    by (simp_all add: demo_calls_def call_badname_def)
  show ?thesis
    using h1 h2 h3 h4 sp nm invalid_tool_name_recorded [OF h1 h2 h3 h4 h5, of world0]
    by auto
qed

text \<open>
  C4. A requested call whose name is not a handoff and splits into exactly three segments
  on \<open>_-_-_\<close>, and whose argument string parses, is routed to the MCP service with the
  second and third segment and the parsed arguments. The dispatcher returns a success
  with one tool-role message and one record per requested call, in the order of the
  requests (the \<open>i\<close>-th message carries the id of the \<open>i\<close>-th call). At the call's position
  the content is the serialisation of the service's \<open>data\<close> when the service reports
  success and \<open>Error: \<close> followed by the service's error when it reports failure (and
  \<open>Error: \<close> followed by the message when the service call itself throws). The
  iteration appends exactly this message and this record to what the loop had pushed
  before.
\<close>

theorem mcp_call_dispatched:
  assumes "i < length tcs"
    and "JSON_parse e (tc_arguments (tcs ! i)) = Inr a"
    and "tc_name (tcs ! i) \<noteq> ''handoff''"
    and "\<not> startsWith (tc_name (tcs ! i)) ''handoff_to_''"
    and "length (split (tc_name (tcs ! i)) ''_-_-_'') = 3"
  shows "\<exists>r w'. processToolCalls e (Some tcs) w = (Inr r, w') \<and>
           length (toolCallMessages r) = length tcs \<and>
           length (processedToolCalls r) = length tcs \<and>
           map tool_call_id (toolCallMessages r) = map (\<lambda>tc. Some (tc_id tc)) tcs \<and>
           map msg_role (toolCallMessages r) = replicate (length tcs) Tool \<and>
           map call_id (processedToolCalls r) = map tc_id tcs \<and>
           map name (processedToolCalls r) = map tc_name tcs \<and>
           msg_content (toolCallMessages r ! i) =
             (case callTool e (length (mcp_calls (worldBefore e tcs i w)))
                     (split (tc_name (tcs ! i)) ''_-_-_'' ! 1)
                     (split (tc_name (tcs ! i)) ''_-_-_'' ! 2) a of
                Inr answer \<Rightarrow>
                  if success answer then JSON_stringify e (data answer)
                  else ''Error: '' @ error answer
              | Inl err \<Rightarrow>
                  ''Error: '' @ (if instanceofError err then errorMessage err
                                 else ''Unknown error'')) \<and>
           result (processedToolCalls r ! i) = msg_content (toolCallMessages r ! i) \<and>
           mcp_calls (worldBefore e tcs (Suc i) w) =
             mcp_calls (worldBefore e tcs i w) @
               [(split (tc_name (tcs ! i)) ''_-_-_'' ! 1,
                 split (tc_name (tcs ! i)) ''_-_-_'' ! 2, a)] \<and>
           fst (stateBefore e tcs (Suc i) w) =
             fst (stateBefore e tcs i w) @ [toolCallMessages r ! i] \<and>
           fst (snd (stateBefore e tcs (Suc i) w)) =
             fst (snd (stateBefore e tcs i w)) @ [processedToolCalls r ! i]"
proof -
  have ne: "tcs \<noteq> []" using assms(1) by auto
  obtain r w' where r: "processToolCalls e (Some tcs) w = (Inr r, w')"
    and l: "processLoop e tcs ([], [], w) = (toolCallMessages r, processedToolCalls r, w')"
    and len: "length (toolCallMessages r) = length tcs"
             "length (processedToolCalls r) = length tcs"
    and ord: "map tool_call_id (toolCallMessages r) = map (\<lambda>tc. Some (tc_id tc)) tcs"
             "map msg_role (toolCallMessages r) = replicate (length tcs) Tool"
             "map call_id (processedToolCalls r) = map tc_id tcs"
             "map name (processedToolCalls r) = map tc_name tcs"
    using processToolCalls_shape [OF ne, of e w] by blast
  have h: "\<not> isHandoff (tc_name (tcs ! i))"
    using assms(3,4) by (simp add: isHandoff_def)
  have step: "([toolCallMessages r ! i], [processedToolCalls r ! i],
               worldBefore e tcs (Suc i) w) =
             processToolCall e (tcs ! i) ([], [], worldBefore e tcs i w)"
    using processLoop_nth [OF assms(1) l] by simp
  have c: "msg_content (toolCallMessages r ! i) =
             (case callTool e (length (mcp_calls (worldBefore e tcs i w)))
                     (split (tc_name (tcs ! i)) ''_-_-_'' ! 1)
                     (split (tc_name (tcs ! i)) ''_-_-_'' ! 2) a of
                Inr answer \<Rightarrow>
                  if success answer then JSON_stringify e (data answer)
                  else ''Error: '' @ error answer
              | Inl err \<Rightarrow>
                  ''Error: '' @ (if instanceofError err then errorMessage err
                                 else ''Unknown error''))"
    using step processToolCall_mcp [OF assms(2) h assms(5), of "worldBefore e tcs i w"]
    by (simp add: Let_def)
  have d: "result (processedToolCalls r ! i) = msg_content (toolCallMessages r ! i)"
    using step processToolCall_mcp [OF assms(2) h assms(5), of "worldBefore e tcs i w"]
    by (simp add: Let_def)
  have m: "mcp_calls (worldBefore e tcs (Suc i) w) =
             mcp_calls (worldBefore e tcs i w) @
               [(split (tc_name (tcs ! i)) ''_-_-_'' ! 1,
                 split (tc_name (tcs ! i)) ''_-_-_'' ! 2, a)]"
    using step processToolCall_mcp [OF assms(2) h assms(5), of "worldBefore e tcs i w"]
    by (simp add: Let_def)
  show ?thesis
    using r len ord c d m stateBefore_Suc [OF assms(1) l] by blast
qed

theorem mcp_call_dispatched_witness:
  \<open>0 < length demo_calls \<and>
   JSON_parse demo_env (tc_arguments (demo_calls ! 0)) = Inr (JObj [(''q'', JStr ''x'')]) \<and>
   tc_name (demo_calls ! 0) \<noteq> ''handoff'' \<and>
   \<not> startsWith (tc_name (demo_calls ! 0)) ''handoff_to_'' \<and>
   split (tc_name (demo_calls ! 0)) ''_-_-_'' = ['''', ''search'', ''lookup''] \<and>
   (\<exists>r w'. processToolCalls demo_env (Some demo_calls) world0 = (Inr r, w') \<and>
      map tool_call_id (toolCallMessages r) =
        [Some ''c1'', Some ''c2'', Some ''c3'', Some ''c4'', Some ''c5''] \<and>
      msg_content (toolCallMessages r ! 0) = ''{"hits":3}'' \<and>
      result (processedToolCalls r ! 0) = ''{"hits":3}'' \<and>
      mcp_calls (worldBefore demo_env demo_calls (Suc 0) world0) =
        [(''search'', ''lookup'', JObj [(''q'', JStr ''x'')])])\<close>
proof -
  have h1: "0 < length demo_calls" by (simp add: demo_calls_def)
  have h2: \<open>JSON_parse demo_env (tc_arguments (demo_calls ! 0)) = Inr (JObj [(''q'', JStr ''x'')])\<close>
    by (simp add: demo_calls_def demo_env_def demo_parse_def call_search_def)
  have h3: "tc_name (demo_calls ! 0) \<noteq> ''handoff''"
    by (simp add: demo_calls_def call_search_def)
  have h4: "\<not> startsWith (tc_name (demo_calls ! 0)) ''handoff_to_''"
    by (simp add: demo_calls_def call_search_def startsWith_def)
  have sp: "split (tc_name (demo_calls ! 0)) ''_-_-_'' = ['''', ''search'', ''lookup'']"
    by (simp add: demo_calls_def call_search_def split_def)
  have h5: "length (split (tc_name (demo_calls ! 0)) ''_-_-_'') = 3"
    by (simp add: sp)
  have w: "mcp_calls (worldBefore demo_env demo_calls 0 world0) = []"
    by (simp add: worldBefore_def stateBefore_def world0_def)
  have ans: \<open>callTool demo_env 0 ''search'' ''lookup'' (JObj [(''q'', JStr ''x'')]) =
      Inr \<lparr> success = True, data = JObj [(''hits'', JNum 3)], error = [] \<rparr>\<close>
    by (simp add: demo_env_def demo_callTool_def)
  have s: \<open>JSON_stringify demo_env (JObj [(''hits'', JNum 3)]) = ''{"hits":3}''\<close>
    by (simp add: demo_env_def demo_stringify_def)
  have ids: "map (\<lambda>tc. Some (tc_id tc)) demo_calls =
      [Some ''c1'', Some ''c2'', Some ''c3'', Some ''c4'', Some ''c5'']"
    by (simp add: demo_calls_def call_search_def call_missing_def call_handoff_def
        call_badname_def call_badargs_def)
  show ?thesis
    using h1 h2 h3 h4 sp mcp_call_dispatched [OF h1 h2 h3 h4 h5, of world0] w ans s ids
    by auto
qed

text \<open>
  C2, as amended. A requested call whose argument string fails to parse does not abort
  the loop: the failure is caught by the \<open>catch\<close> of that iteration. The dispatcher
  returns a success with one message and one record per requested call; at the failing
  call's position the content is \<open>Error: \<close> followed by the parser's message, the record
  has empty arguments, and the iteration makes no MCP call.
\<close>

theorem parse_failure_caught_per_call:
  assumes "i < length tcs"
    and "JSON_parse e (tc_arguments (tcs ! i)) = Inl m"
  shows "\<exists>r w'. processToolCalls e (Some tcs) w = (Inr r, w') \<and>
           length (toolCallMessages r) = length tcs \<and>
           length (processedToolCalls r) = length tcs \<and>
           map tool_call_id (toolCallMessages r) = map (\<lambda>tc. Some (tc_id tc)) tcs \<and>
           map call_id (processedToolCalls r) = map tc_id tcs \<and>
           toolCallMessages r ! i =
             \<lparr> msg_id = uuidv4 e (uuids (worldBefore e tcs i w)), msg_role = Tool,
               msg_content = ''Error: '' @ m,
               tool_calls = None, tool_call_id = Some (tc_id (tcs ! i)),
               timestamp = Date_now e (clock_reads (worldBefore e tcs i w)),
               processNodeId = None \<rparr> \<and>
           processedToolCalls r ! i =
             \<lparr> name = tc_name (tcs ! i), args = JObj [], call_id = tc_id (tcs ! i),
               result = ''Error: '' @ m \<rparr> \<and>
           mcp_calls (worldBefore e tcs (Suc i) w) = mcp_calls (worldBefore e tcs i w) \<and>
           fst (stateBefore e tcs (Suc i) w) =
             fst (stateBefore e tcs i w) @ [toolCallMessages r ! i] \<and>
           fst (snd (stateBefore e tcs (Suc i) w)) =
             fst (snd (stateBefore e tcs i w)) @ [processedToolCalls r ! i]"
proof -
  have ne: "tcs \<noteq> []" using assms(1) by auto
  obtain r w' where r: "processToolCalls e (Some tcs) w = (Inr r, w')"
    and l: "processLoop e tcs ([], [], w) = (toolCallMessages r, processedToolCalls r, w')"
    and len: "length (toolCallMessages r) = length tcs"
             "length (processedToolCalls r) = length tcs"
    and ord: "map tool_call_id (toolCallMessages r) = map (\<lambda>tc. Some (tc_id tc)) tcs"
             "map call_id (processedToolCalls r) = map tc_id tcs"
    using processToolCalls_shape [OF ne, of e w] by blast
  show ?thesis
    using r len ord stateBefore_Suc [OF assms(1) l]
      processLoop_nth [OF assms(1) l, symmetric]
      processToolCall_parse_failure [OF assms(2), of "worldBefore e tcs i w"]
    by simp
qed

theorem parse_failure_caught_per_call_witness:
  \<open>4 < length demo_calls \<and>
   JSON_parse demo_env (tc_arguments (demo_calls ! 4)) = Inl ''Unexpected token in JSON'' \<and>
   (\<exists>r w'. processToolCalls demo_env (Some demo_calls) world0 = (Inr r, w') \<and>
      length (toolCallMessages r) = 5 \<and>
      msg_content (toolCallMessages r ! 4) = ''Error: Unexpected token in JSON'' \<and>
      tool_call_id (toolCallMessages r ! 4) = Some ''c5'' \<and>
      args (processedToolCalls r ! 4) = JObj [])\<close>
proof -
  have h1: "4 < length demo_calls" by (simp add: demo_calls_def)
  have h2: "JSON_parse demo_env (tc_arguments (demo_calls ! 4)) = Inl ''Unexpected token in JSON''"
    by (simp add: demo_calls_def demo_env_def demo_parse_def call_badargs_def)
  have nm: "tc_id (demo_calls ! 4) = ''c5''" "length demo_calls = 5"
    by (simp_all add: demo_calls_def call_badargs_def)
  show ?thesis
    using h1 h2 nm parse_failure_caught_per_call [OF h1 h2, of world0]
    by auto
qed

text \<open>
  The claim as it was stated, that such a failure aborts the loop with
  \<open>tool_processing_failed\<close>, fails on a call with the argument string \<open>{bad\<close> followed
  by a handoff call: the result is a success that answers both calls.
\<close>

theorem parse_failure_aborts_counterexample:
  \<open>JSON_parse demo_env (tc_arguments call_badargs) = Inl ''Unexpected token in JSON'' \<and>
   fst (processToolCalls demo_env (Some [call_badargs, call_handoff]) world0) =
     Inr \<lparr> toolCallMessages =
             [\<lparr> msg_id = ''u'', msg_role = Tool,
                msg_content = ''Error: Unexpected token in JSON'',
                tool_calls = None, tool_call_id = Some ''c5'',
                timestamp = 1700000000000, processNodeId = None \<rparr>,
              \<lparr> msg_id = ''uu'', msg_role = Tool,
                msg_content = ''{"handoff":true,"args":{"x":1}}'',
                tool_calls = None, tool_call_id = Some ''c3'',
                timestamp = 1700000000001, processNodeId = None \<rparr>],
           processedToolCalls =
             [\<lparr> name = ''_-_-_search_-_-_lookup'', args = JObj [], call_id = ''c5'',
                result = ''Error: Unexpected token in JSON'' \<rparr>,
              \<lparr> name = ''handoff_to_billing'', args = JObj [(''x'', JNum 1)], call_id = ''c3'',
                result = ''{"handoff":true,"args":{"x":1}}'' \<rparr>] \<rparr>\<close>
  by (simp add: processToolCalls_def processToolCall_def tryToolCall_def pushToolResult_def
      demo_env_def demo_parse_def demo_stringify_def demo_uuid_def demo_now_def
      call_badargs_def call_handoff_def world0_def isHandoff_def startsWith_def)

section \<open>Properties of callModel\<close>

subsection \<open>The transcript store is only ever extended\<close>

lemma lookupDisplayNames_arrays:
  "arrays (snd (lookupDisplayNames e input w)) = arrays w \<and>
   arrays_next (snd (lookupDisplayNames e input w)) = arrays_next w"
  by (simp add: lookupDisplayNames_def Let_def split: sum.splits option.splits)

lemma generateCompletion_arrays:
  assumes "generateCompletion e mid p msgs tls w = (r, w')"
  shows "arrays_next w \<le> arrays_next w' \<and> (\<forall>a<arrays_next w. arrays w' a = arrays w a)"
  using assms
  by (auto simp: generateCompletion_def handleResponse_def softFailure_def copyMessages_def
      Let_def split: sum.splits option.splits prod.splits if_splits)

text \<open>\<open>callModel\<close> fails exactly when \<open>generateCompletion\<close> fails, with the same error.\<close>

lemma callModel_failure:
  assumes "generateCompletion e (modelId input) (prompt input) (messages input) (tools input)
             (snd (lookupDisplayNames e input w)) = (Inl err, w2)"
  shows "callModel e input w = (Inl err, w2)"
proof -
  obtain d t w1 where "lookupDisplayNames e input w = ((d, t), w1)"
    by (metis surj_pair)
  then show ?thesis using assms by (simp add: callModel_def)
qed

text \<open>What \<open>callModel\<close> returns when \<open>generateCompletion\<close> succeeds, written out.\<close>

lemma callModel_success:
  assumes "generateCompletion e (modelId input) (prompt input) (messages input) (tools input)
             (snd (lookupDisplayNames e input w)) = (Inr resp, w2)"
  shows "\<exists>r w' m.
           callModel e input w = (Inr r, w') \<and>
           mcr_messages r = arrays_next w2 \<and>
           arrays w' = (arrays w2)(arrays_next w2 := arrays w2 (messages input) @ [m]) \<and>
           arrays_next w' = Suc (arrays_next w2) \<and>
           m = \<lparr> msg_id = uuidv4 e (uuids w2), msg_role = Assistant,
                 msg_content = mcr_content r,
                 tool_calls = responseToolCalls (fullResponse resp),
                 tool_call_id = None, timestamp = Date_now e (clock_reads w2),
                 processNodeId = nodeId input \<rparr> \<and>
           mcr_content r =
             (if fst (fst (lookupDisplayNames e input w)) \<noteq> [] \<and>
                 \<not> hasHeadingPattern (mcr_content resp)
              then saysPrefix (nodeName input) (fst (fst (lookupDisplayNames e input w)))
                     (snd (fst (lookupDisplayNames e input w))) @ mcr_content resp
              else mcr_content resp) \<and>
           fullResponse r = fullResponse resp \<and>
           toolCalls r =
             map_option (map (\<lambda>tc. fst (extractToolCall e tc)))
               (responseToolCalls (fullResponse resp)) \<and>
           warnings w' = warnings w2 @
             (case responseToolCalls (fullResponse resp) of
                None \<Rightarrow> []
              | Some tcs \<Rightarrow> concat (map (\<lambda>tc. snd (extractToolCall e tc)) tcs))"
proof -
  obtain d t w1 where "lookupDisplayNames e input w = ((d, t), w1)"
    by (metis surj_pair)
  then show ?thesis
    using assms
    by (simp add: callModel_def copyMessages_def pushMessage_def Let_def comp_def
        option.map_comp split: option.splits)
qed

subsection \<open>The claims about callModel\<close>

text \<open>
  C1. \<open>callModel\<close> never changes the array it was given as transcript, nor any other
  array already in the store. When \<open>generateCompletion\<close> fails, \<open>callModel\<close> returns that
  error and nothing else. When it succeeds, the returned \<open>messages\<close> is a new array (an
  address that was not in use) holding the input transcript followed by exactly one new
  message, of role assistant, whose content is the returned content.
\<close>

theorem callModel_transcript:
  assumes "messages input < arrays_next w"
  shows "case callModel e input w of
           (Inl err, w') \<Rightarrow>
             fst (generateCompletion e (modelId input) (prompt input) (messages input)
                    (tools input) (snd (lookupDisplayNames e input w))) = Inl err \<and>
             arrays w' (messages input) = arrays w (messages input) \<and>
             (\<forall>a<arrays_next w. arrays w' a = arrays w a)
         | (Inr r, w') \<Rightarrow>
             (\<exists>resp. fst (generateCompletion e (modelId input) (prompt input) (messages input)
                       (tools input) (snd (lookupDisplayNames e input w))) = Inr resp) \<and>
             arrays w' (messages input) = arrays w (messages input) \<and>
             (\<forall>a<arrays_next w. arrays w' a = arrays w a) \<and>
             arrays_next w \<le> mcr_messages r \<and>
             (\<exists>m. arrays w' (mcr_messages r) = arrays w (messages input) @ [m] \<and>
                  msg_role m = Assistant \<and> msg_content m = mcr_content r)"
proof -
  obtain g w2 where g: "generateCompletion e (modelId input) (prompt input) (messages input)
      (tools input) (snd (lookupDisplayNames e input w)) = (g, w2)"
    by (metis surj_pair)
  have fr: "arrays_next w \<le> arrays_next w2" "\<And>a. a < arrays_next w \<Longrightarrow> arrays w2 a = arrays w a"
    using generateCompletion_arrays [OF g] lookupDisplayNames_arrays [of e input w] by simp_all
  show ?thesis
  proof (cases g)
    case (Inl err)
    then have "callModel e input w = (Inl err, w2)"
      using callModel_failure g by simp
    then show ?thesis using g Inl fr assms by simp
  next
    case (Inr resp)
    then obtain r w' m where c: "callModel e input w = (Inr r, w')"
      and a: "mcr_messages r = arrays_next w2"
        "arrays w' = (arrays w2)(arrays_next w2 := arrays w2 (messages input) @ [m])"
      and m: "m = \<lparr> msg_id = uuidv4 e (uuids w2), msg_role = Assistant,
                 msg_content = mcr_content r,
                 tool_calls = responseToolCalls (fullResponse resp),
                 tool_call_id = None, timestamp = Date_now e (clock_reads w2),
                 processNodeId = nodeId input \<rparr>"
      using callModel_success [of e input w resp w2] g by blast
    have "arrays w' (mcr_messages r) = arrays w (messages input) @ [m]"
      using a fr assms by simp
    moreover have "msg_role m = Assistant" "msg_content m = mcr_content r"
      using m by simp_all
    moreover have "\<And>b. b < arrays_next w \<Longrightarrow> arrays w' b = arrays w b"
      using a fr by simp
    ultimately show ?thesis
      using c g Inr a fr assms by auto
  qed
qed

lemma demo_callModel:
  \<open>fst (callModel demo_env demo_input world1) =
     Inr \<lparr> mcr_content = ''## Planner - Fast (gpt-x) says:'' @ [CHR 0x0A, CHR 0x0A] @ ''Hello'',
           mcr_messages = 2, fullResponse = demo_completion,
           toolCalls = Some [\<lparr> name = ''_-_-_search_-_-_lookup'', args = JObj [(''q'', JStr ''x'')],
                               call_id = ''c1'', result = [] \<rparr>,
                             \<lparr> name = ''handoff'', args = JObj [], call_id = ''c2'',
                               result = [] \<rparr>] \<rparr>\<close>
  by (simp add: callModel_def lookupDisplayNames_def generateCompletion_def prepareTools_def
      handleResponse_def firstChoice_def copyMessages_def pushMessage_def
      responseToolCalls_def extractToolCall_def saysPrefix_def hasHeadingPattern_def
      demo_env_def demo_getModel_def demo_resolveKey_def demo_create_def demo_completion_def
      demo_model_def demo_parse_def demo_input_def world1_def world0_def Let_def)

lemma demo_generateCompletion:
  "fst (generateCompletion demo_env (modelId demo_input) (prompt demo_input)
          (messages demo_input) (tools demo_input)
          (snd (lookupDisplayNames demo_env demo_input world1))) =
     Inr \<lparr> mcr_content = ''Hello'', mcr_messages = 1, fullResponse = demo_completion,
           toolCalls = None \<rparr>"
  by (simp add: lookupDisplayNames_def generateCompletion_def prepareTools_def
      handleResponse_def firstChoice_def copyMessages_def
      demo_env_def demo_getModel_def demo_resolveKey_def demo_create_def demo_completion_def
      demo_model_def demo_input_def world1_def world0_def Let_def)

lemma demo_generateCompletion_transient:
  "fst (generateCompletion demo_env_transient (modelId demo_input) (prompt demo_input)
          (messages demo_input) (tools demo_input)
          (snd (lookupDisplayNames demo_env_transient demo_input world1))) =
     Inr \<lparr> mcr_content = ''Hello'', mcr_messages = 1, fullResponse = demo_completion,
           toolCalls = None \<rparr>"
  by (simp add: lookupDisplayNames_def generateCompletion_def prepareTools_def
      handleResponse_def firstChoice_def copyMessages_def demo_env_transient_def
      demo_env_def demo_getModel_transient_def demo_resolveKey_def demo_create_def
      demo_completion_def demo_model_def demo_input_def world1_def world0_def Let_def)

theorem callModel_transcript_witness:
  "messages demo_input < arrays_next world1 \<and>
   (\<exists>r w'. callModel demo_env demo_input world1 = (Inr r, w') \<and>
      arrays w' (messages demo_input) = [user_message] \<and>
      (\<exists>m. arrays w' (mcr_messages r) = [user_message, m] \<and> msg_role m = Assistant \<and>
           msg_content m = ''## Planner - Fast (gpt-x) says:'' @ [CHR 0x0A, CHR 0x0A] @ ''Hello''))"
proof -
  have h: "messages demo_input < arrays_next world1"
    by (simp add: demo_input_def world1_def)
  obtain r w' where c: "callModel demo_env demo_input world1 = (Inr r, w')"
    and r: "mcr_content r = ''## Planner - Fast (gpt-x) says:'' @ [CHR 0x0A, CHR 0x0A] @ ''Hello''"
    using demo_callModel by (cases "callModel demo_env demo_input world1") auto
  have t: "arrays world1 (messages demo_input) = [user_message]"
    by (simp add: demo_input_def world1_def)
  show ?thesis
    using h callModel_transcript [OF h, of demo_env] c r t by auto
qed

text \<open>
  C3, as amended. Let the raw content be the content that \<open>generateCompletion\<close> returned.
  If it matches the heading pattern, the content that \<open>callModel\<close> returns and stores in
  the assistant message is the raw content. Otherwise it is the raw content behind the
  heading \<open>## <nodeDisplayName> - <modelDisplayName> (<modelTechnicalName>) says:\<close> and a
  blank line, provided the resolved model display name is not empty; when it is empty
  (the lookup threw, found no model, or found one with neither display name nor name),
  the content is the raw content, without a heading.
\<close>

theorem assistant_content_heading:
  assumes "fst (callModel e input w) = Inr r"
  shows "\<exists>resp.
           fst (generateCompletion e (modelId input) (prompt input) (messages input)
                  (tools input) (snd (lookupDisplayNames e input w))) = Inr resp \<and>
           fst (lookupDisplayNames e input w) =
             (case getModel e (getModel_calls w) (modelId input) of
                Inr (Some mdl) \<Rightarrow>
                  (if displayName mdl \<noteq> [] then displayName mdl else model_name mdl,
                   model_name mdl)
              | _ \<Rightarrow> ([], [])) \<and>
           mcr_content r =
             (if hasHeadingPattern (mcr_content resp) then mcr_content resp
              else if fst (fst (lookupDisplayNames e input w)) = [] then mcr_content resp
              else ''## '' @ nodeName input @ '' - '' @ fst (fst (lookupDisplayNames e input w)) @
                   '' ('' @ snd (fst (lookupDisplayNames e input w)) @ '') says:'' @
                   [CHR 0x0A, CHR 0x0A] @ mcr_content resp) \<and>
           msg_content (last (arrays (snd (callModel e input w)) (mcr_messages r))) =
             mcr_content r"
proof -
  obtain g w2 where g: "generateCompletion e (modelId input) (prompt input) (messages input)
      (tools input) (snd (lookupDisplayNames e input w)) = (g, w2)"
    by (metis surj_pair)
  have n: "fst (lookupDisplayNames e input w) =
             (case getModel e (getModel_calls w) (modelId input) of
                Inr (Some mdl) \<Rightarrow>
                  (if displayName mdl \<noteq> [] then displayName mdl else model_name mdl,
                   model_name mdl)
              | _ \<Rightarrow> ([], []))"
    by (simp add: lookupDisplayNames_def Let_def split: sum.splits option.splits)
  show ?thesis
  proof (cases g)
    case (Inl err)
    then show ?thesis using callModel_failure [of e input w err w2] g assms by simp
  next
    case (Inr resp)
    then obtain r' w' m where c: "callModel e input w = (Inr r', w')"
      and a: "arrays w' = (arrays w2)(arrays_next w2 := arrays w2 (messages input) @ [m])"
        "mcr_messages r' = arrays_next w2"
      and m: "m = \<lparr> msg_id = uuidv4 e (uuids w2), msg_role = Assistant,
                 msg_content = mcr_content r',
                 tool_calls = responseToolCalls (fullResponse resp),
                 tool_call_id = None, timestamp = Date_now e (clock_reads w2),
                 processNodeId = nodeId input \<rparr>"
      and p: "mcr_content r' =
             (if fst (fst (lookupDisplayNames e input w)) \<noteq> [] \<and>
                 \<not> hasHeadingPattern (mcr_content resp)
              then saysPrefix (nodeName input) (fst (fst (lookupDisplayNames e input w)))
                     (snd (fst (lookupDisplayNames e input w))) @ mcr_content resp
              else mcr_content resp)"
      using callModel_success [of e input w resp w2] g by blast
    have r: "r' = r" using c assms by simp
    have "msg_content (last (arrays (snd (callModel e input w)) (mcr_messages r))) =
            mcr_content r"
      using c a m r by simp
    moreover have "mcr_content r =
             (if hasHeadingPattern (mcr_content resp) then mcr_content resp
              else if fst (fst (lookupDisplayNames e input w)) = [] then mcr_content resp
              else ''## '' @ nodeName input @ '' - '' @ fst (fst (lookupDisplayNames e input w)) @
                   '' ('' @ snd (fst (lookupDisplayNames e input w)) @ '') says:'' @
                   [CHR 0x0A, CHR 0x0A] @ mcr_content resp)"
      using p r by (simp add: saysPrefix_def)
    ultimately show ?thesis using g Inr n by simp
  qed
qed

theorem assistant_content_heading_witness:
  \<open>fst (callModel demo_env demo_input world1) =
     Inr \<lparr> mcr_content = ''## Planner - Fast (gpt-x) says:'' @ [CHR 0x0A, CHR 0x0A] @ ''Hello'',
           mcr_messages = 2, fullResponse = demo_completion,
           toolCalls = Some [\<lparr> name = ''_-_-_search_-_-_lookup'', args = JObj [(''q'', JStr ''x'')],
                               call_id = ''c1'', result = [] \<rparr>,
                             \<lparr> name = ''handoff'', args = JObj [], call_id = ''c2'',
                               result = [] \<rparr>] \<rparr> \<and>
   \<not> hasHeadingPattern ''Hello'' \<and>
   fst (lookupDisplayNames demo_env demo_input world1) = (''Fast'', ''gpt-x'') \<and>
   msg_content (last (arrays (snd (callModel demo_env demo_input world1)) 2)) =
     ''## Planner - Fast (gpt-x) says:'' @ [CHR 0x0A, CHR 0x0A] @ ''Hello''\<close>
proof -
  have n: "\<not> hasHeadingPattern ''Hello''"
    by (simp add: hasHeadingPattern_def)
  have l: "fst (lookupDisplayNames demo_env demo_input world1) = (''Fast'', ''gpt-x'')"
    by (simp add: lookupDisplayNames_def demo_env_def demo_getModel_def demo_model_def Let_def)
  show ?thesis
    using assistant_content_heading [OF demo_callModel] demo_callModel n l
    by auto
qed

text \<open>
  The claim as it was stated, that content without the heading is always prefixed, fails
  with a catalog whose first lookup throws: the raw content \<open>Hello\<close> does not match the
  pattern and is stored as it is.
\<close>

theorem prefix_always_applied_counterexample:
  \<open>\<not> hasHeadingPattern ''Hello'' \<and>
   fst (callModel demo_env_transient demo_input world1) =
     Inr \<lparr> mcr_content = ''Hello'', mcr_messages = 2, fullResponse = demo_completion,
           toolCalls = Some [\<lparr> name = ''_-_-_search_-_-_lookup'', args = JObj [(''q'', JStr ''x'')],
                               call_id = ''c1'', result = [] \<rparr>,
                             \<lparr> name = ''handoff'', args = JObj [], call_id = ''c2'',
                               result = [] \<rparr>] \<rparr> \<and>
   arrays (snd (callModel demo_env_transient demo_input world1)) 2 =
     [user_message,
      \<lparr> msg_id = ''u'', msg_role = Assistant, msg_content = ''Hello'',
        tool_calls = Some [\<lparr> tc_id = ''c1'', tc_name = ''_-_-_search_-_-_lookup'',
                             tc_arguments = ''{"q":"x"}'' \<rparr>,
                           \<lparr> tc_id = ''c2'', tc_name = ''handoff'', tc_arguments = ''{bad'' \<rparr>],
        tool_call_id = None, timestamp = 1700000000000, processNodeId = Some ''node-7'' \<rparr>]\<close>
  by (simp add: callModel_def lookupDisplayNames_def generateCompletion_def prepareTools_def
      handleResponse_def firstChoice_def copyMessages_def pushMessage_def
      responseToolCalls_def extractToolCall_def hasHeadingPattern_def demo_env_transient_def
      demo_env_def demo_getModel_transient_def demo_resolveKey_def demo_create_def
      demo_completion_def demo_model_def demo_parse_def demo_uuid_def demo_now_def
      demo_input_def world1_def world0_def Let_def)

text \<open>
  C7. When \<open>generateCompletion\<close> succeeds and the first choice of the raw response holds
  tool calls, \<open>callModel\<close> succeeds and its \<open>toolCalls\<close> has one descriptor per requested
  call, in order, with the call's name and id and the empty string as result. A call
  whose argument string fails to parse is still there, with the empty map as arguments,
  and a warning naming its id has been logged; the other calls carry their parsed
  arguments.
\<close>

theorem extraction_tolerates_parse_failure:
  assumes "fst (generateCompletion e (modelId input) (prompt input) (messages input)
                  (tools input) (snd (lookupDisplayNames e input w))) = Inr resp"
    and "responseToolCalls (fullResponse resp) = Some tcs"
    and "i < length tcs"
    and "JSON_parse e (tc_arguments (tcs ! i)) = Inl m"
  shows "\<exists>r infos.
           fst (callModel e input w) = Inr r \<and>
           toolCalls r = Some infos \<and>
           length infos = length tcs \<and>
           map name infos = map tc_name tcs \<and>
           map call_id infos = map tc_id tcs \<and>
           map result infos = replicate (length tcs) [] \<and>
           map args infos =
             map (\<lambda>tc. case JSON_parse e (tc_arguments tc) of Inr a \<Rightarrow> a | Inl x \<Rightarrow> JObj []) tcs \<and>
           infos ! i =
             \<lparr> name = tc_name (tcs ! i), args = JObj [], call_id = tc_id (tcs ! i),
               result = [] \<rparr> \<and>
           FailedToParseToolArguments (tc_id (tcs ! i)) (tc_arguments (tcs ! i)) m
             \<in> set (warnings (snd (callModel e input w)))"
proof -
  obtain w2 where g: "generateCompletion e (modelId input) (prompt input) (messages input)
      (tools input) (snd (lookupDisplayNames e input w)) = (Inr resp, w2)"
    using assms(1) by (metis prod.collapse)
  obtain r w' where c: "callModel e input w = (Inr r, w')"
    and t: "toolCalls r = map_option (map (\<lambda>tc. fst (extractToolCall e tc)))
               (responseToolCalls (fullResponse resp))"
    and l: "warnings w' = warnings w2 @
             (case responseToolCalls (fullResponse resp) of
                None \<Rightarrow> []
              | Some tcs \<Rightarrow> concat (map (\<lambda>tc. snd (extractToolCall e tc)) tcs))"
    using callModel_success [OF g] by blast
  let ?infos = "map (\<lambda>tc. fst (extractToolCall e tc)) tcs"
  have ti: "toolCalls r = Some ?infos" using t assms(2) by simp
  have x: "extractToolCall e (tcs ! i) =
      (\<lparr> name = tc_name (tcs ! i), args = JObj [], call_id = tc_id (tcs ! i), result = [] \<rparr>,
       [FailedToParseToolArguments (tc_id (tcs ! i)) (tc_arguments (tcs ! i)) m])"
    using assms(4) by (simp add: extractToolCall_def)
  have ith: "?infos ! i =
      \<lparr> name = tc_name (tcs ! i), args = JObj [], call_id = tc_id (tcs ! i), result = [] \<rparr>"
    using assms(3) x by simp
  have "tcs ! i \<in> set tcs" using assms(3) by simp
  then have "FailedToParseToolArguments (tc_id (tcs ! i)) (tc_arguments (tcs ! i)) m
      \<in> set (concat (map (\<lambda>tc. snd (extractToolCall e tc)) tcs))"
    using x by force
  then have lg: "FailedToParseToolArguments (tc_id (tcs ! i)) (tc_arguments (tcs ! i)) m
      \<in> set (warnings (snd (callModel e input w)))"
    using c l assms(2) by simp
  have f: "\<And>tc. name (fst (extractToolCall e tc)) = tc_name tc"
    "\<And>tc. call_id (fst (extractToolCall e tc)) = tc_id tc"
    "\<And>tc. result (fst (extractToolCall e tc)) = []"
    "\<And>tc. args (fst (extractToolCall e tc)) =
       (case JSON_parse e (tc_arguments tc) of Inr a \<Rightarrow> a | Inl x \<Rightarrow> JObj [])"
    by (simp_all add: extractToolCall_def split: sum.splits)
  have nm: "map name ?infos = map tc_name tcs"
    by (simp add: comp_def f)
  have ci: "map call_id ?infos = map tc_id tcs"
    by (simp add: comp_def f)
  have rs: "map result ?infos = replicate (length tcs) []"
    by (simp add: comp_def f map_replicate_const)
  have ar: "map args ?infos =
      map (\<lambda>tc. case JSON_parse e (tc_arguments tc) of Inr a \<Rightarrow> a | Inl x \<Rightarrow> JObj []) tcs"
    by (simp add: comp_def f)
  show ?thesis
    using c ti ith lg nm ci rs ar by simp
qed

theorem extraction_tolerates_parse_failure_witness:
  \<open>fst (generateCompletion demo_env (modelId demo_input) (prompt demo_input)
          (messages demo_input) (tools demo_input)
          (snd (lookupDisplayNames demo_env demo_input world1))) =
     Inr \<lparr> mcr_content = ''Hello'', mcr_messages = 1, fullResponse = demo_completion,
           toolCalls = None \<rparr> \<and>
   responseToolCalls demo_completion =
     Some [\<lparr> tc_id = ''c1'', tc_name = ''_-_-_search_-_-_lookup'', tc_arguments = ''{"q":"x"}'' \<rparr>,
           \<lparr> tc_id = ''c2'', tc_name = ''handoff'', tc_arguments = ''{bad'' \<rparr>] \<and>
   JSON_parse demo_env ''{bad'' = Inl ''Unexpected token in JSON'' \<and>
   (\<exists>r infos. fst (callModel demo_env demo_input world1) = Inr r \<and>
      toolCalls r = Some infos \<and> length infos = 2 \<and>
      infos ! 1 = \<lparr> name = ''handoff'', args = JObj [], call_id = ''c2'', result = [] \<rparr> \<and>
      FailedToParseToolArguments ''c2'' ''{bad'' ''Unexpected token in JSON''
        \<in> set (warnings (snd (callModel demo_env demo_input world1))))\<close>
proof -
  let ?tcs = \<open>[\<lparr> tc_id = ''c1'', tc_name = ''_-_-_search_-_-_lookup'',
                   tc_arguments = ''{"q":"x"}'' \<rparr>,
               \<lparr> tc_id = ''c2'', tc_name = ''handoff'', tc_arguments = ''{bad'' \<rparr>]\<close>
  have h2: "responseToolCalls (fullResponse \<lparr> mcr_content = ''Hello'', mcr_messages = 1,
      fullResponse = demo_completion, toolCalls = None \<rparr>) = Some ?tcs"
    by (simp add: responseToolCalls_def firstChoice_def demo_completion_def)
  have h3: "1 < length ?tcs" by simp
  have h4: "JSON_parse demo_env (tc_arguments (?tcs ! 1)) = Inl ''Unexpected token in JSON''"
    by (simp add: demo_env_def demo_parse_def)
  show ?thesis
    using extraction_tolerates_parse_failure [OF demo_generateCompletion h2 h3 h4]
      demo_generateCompletion h2 h4
    by auto
qed

text \<open>
  C10. If the model lookup that \<open>callModel\<close> makes for the display name throws or finds
  no model, and \<open>generateCompletion\<close> then succeeds, \<open>callModel\<close> succeeds, and the content
  it returns and stores in the new assistant message is the raw content, with no
  heading put in front, whether or not the raw content matches the heading pattern.
\<close>

theorem lookup_failure_leaves_content_raw:
  assumes "getModel e (getModel_calls w) (modelId input) = Inl err \<or>
           getModel e (getModel_calls w) (modelId input) = Inr None"
    and "fst (generateCompletion e (modelId input) (prompt input) (messages input)
                (tools input) (snd (lookupDisplayNames e input w))) = Inr resp"
  shows "\<exists>r. fst (callModel e input w) = Inr r \<and>
           mcr_content r = mcr_content resp \<and>
           msg_role (last (arrays (snd (callModel e input w)) (mcr_messages r))) = Assistant \<and>
           msg_content (last (arrays (snd (callModel e input w)) (mcr_messages r))) =
             mcr_content resp"
proof -
  obtain w2 where g: "generateCompletion e (modelId input) (prompt input) (messages input)
      (tools input) (snd (lookupDisplayNames e input w)) = (Inr resp, w2)"
    using assms(2) by (metis prod.collapse)
  have n: "fst (fst (lookupDisplayNames e input w)) = []"
    using assms(1) by (auto simp: lookupDisplayNames_def Let_def)
  obtain r w' m where c: "callModel e input w = (Inr r, w')"
    and a: "arrays w' = (arrays w2)(arrays_next w2 := arrays w2 (messages input) @ [m])"
      "mcr_messages r = arrays_next w2"
    and m: "m = \<lparr> msg_id = uuidv4 e (uuids w2), msg_role = Assistant,
               msg_content = mcr_content r,
               tool_calls = responseToolCalls (fullResponse resp),
               tool_call_id = None, timestamp = Date_now e (clock_reads w2),
               processNodeId = nodeId input \<rparr>"
    and p: "mcr_content r =
           (if fst (fst (lookupDisplayNames e input w)) \<noteq> [] \<and>
               \<not> hasHeadingPattern (mcr_content resp)
            then saysPrefix (nodeName input) (fst (fst (lookupDisplayNames e input w)))
                   (snd (fst (lookupDisplayNames e input w))) @ mcr_content resp
            else mcr_content resp)"
    using callModel_success [OF g] by blast
  have "mcr_content r = mcr_content resp" using p n by simp
  then show ?thesis using c a m by simp
qed

theorem lookup_failure_leaves_content_raw_witness:
  "getModel demo_env_transient (getModel_calls world1) (modelId demo_input) =
     Inl (JSError ''catalog offline'') \<and>
   fst (generateCompletion demo_env_transient (modelId demo_input) (prompt demo_input)
          (messages demo_input) (tools demo_input)
          (snd (lookupDisplayNames demo_env_transient demo_input world1))) =
     Inr \<lparr> mcr_content = ''Hello'', mcr_messages = 1, fullResponse = demo_completion,
           toolCalls = None \<rparr> \<and>
   \<not> hasHeadingPattern ''Hello'' \<and>
   (\<exists>r. fst (callModel demo_env_transient demo_input world1) = Inr r \<and>
      mcr_content r = ''Hello'' \<and>
      msg_content (last (arrays (snd (callModel demo_env_transient demo_input world1))
                           (mcr_messages r))) = ''Hello'')"
proof -
  have h1: "getModel demo_env_transient (getModel_calls world1) (modelId demo_input) =
      Inl (JSError ''catalog offline'')"
    by (simp add: demo_env_transient_def demo_getModel_transient_def world1_def world0_def)
  have h1': "getModel demo_env_transient (getModel_calls world1) (modelId demo_input) =
      Inl (JSError ''catalog offline'') \<or>
      getModel demo_env_transient (getModel_calls world1) (modelId demo_input) = Inr None"
    using h1 by simp
  have n: "\<not> hasHeadingPattern ''Hello''"
    by (simp add: hasHeadingPattern_def)
  show ?thesis
    using lookup_failure_leaves_content_raw [OF h1' demo_generateCompletion_transient]
      h1 demo_generateCompletion_transient n
    by auto
qed

section \<open>The heading test decides the language of the regular expression\<close>

lemma matchBlankLine_iff:
  "matchBlankLine r \<longleftrightarrow>
     (\<exists>ws t. r = ws @ [CHR 0x0A, CHR 0x0A] @ t \<and> list_all isWhiteSpace ws)"
proof
  show "matchBlankLine r \<Longrightarrow>
      \<exists>ws t. r = ws @ [CHR 0x0A, CHR 0x0A] @ t \<and> list_all isWhiteSpace ws"
  proof (induction r)
    case Nil
    then show ?case by simp
  next
    case (Cons c cs)
    show ?case
    proof (cases "c = CHR 0x0A \<and> (case cs of [] \<Rightarrow> False | d # ds \<Rightarrow> d = CHR 0x0A)")
      case True
      then obtain ds where "cs = CHR 0x0A # ds" by (cases cs) auto
      then have "c # cs = [] @ [CHR 0x0A, CHR 0x0A] @ ds" "list_all isWhiteSpace []"
        using True by simp_all
      then show ?thesis by blast
    next
      case False
      then have "isWhiteSpace c" "matchBlankLine cs" using Cons.prems by auto
      then obtain ws t where "cs = ws @ [CHR 0x0A, CHR 0x0A] @ t" "list_all isWhiteSpace ws"
        using Cons.IH by blast
      then have "c # cs = (c # ws) @ [CHR 0x0A, CHR 0x0A] @ t" "list_all isWhiteSpace (c # ws)"
        using \<open>isWhiteSpace c\<close> by simp_all
      then show ?thesis by blast
    qed
  qed
next
  assume "\<exists>ws t. r = ws @ [CHR 0x0A, CHR 0x0A] @ t \<and> list_all isWhiteSpace ws"
  then obtain ws t where "r = ws @ [CHR 0x0A, CHR 0x0A] @ t" "list_all isWhiteSpace ws"
    by blast
  then show "matchBlankLine r"
    by (induction ws arbitrary: r) simp_all
qed

lemma matchSays_iff:
  "matchSays s \<longleftrightarrow> (\<exists>k r. s = k @ r \<and> saysIgnoringCase k \<and> matchBlankLine r)"
proof
  assume "matchSays s"
  then obtain c1 c2 c3 c4 c5 rest where s: "s = c1 # c2 # c3 # c4 # c5 # rest"
    and c: "(c1 = CHR ''s'' \<or> c1 = CHR ''S'')" "(c2 = CHR ''a'' \<or> c2 = CHR ''A'')"
      "(c3 = CHR ''y'' \<or> c3 = CHR ''Y'')" "(c4 = CHR ''s'' \<or> c4 = CHR ''S'')"
      "c5 = CHR '':''" "matchBlankLine rest"
    by (auto simp: matchSays_def split: list.splits)
  have "s = [c1, c2, c3, c4, CHR '':''] @ rest" using s c(5) by simp
  moreover have "saysIgnoringCase [c1, c2, c3, c4, CHR '':'']"
    using c(1-4) by (simp add: saysIgnoringCase_def)
  ultimately show "\<exists>k r. s = k @ r \<and> saysIgnoringCase k \<and> matchBlankLine r"
    using c(6) by blast
next
  assume "\<exists>k r. s = k @ r \<and> saysIgnoringCase k \<and> matchBlankLine r"
  then show "matchSays s"
    by (auto simp: matchSays_def saysIgnoringCase_def)
qed

lemma matchDotsSays_iff:
  "matchDotsSays s \<longleftrightarrow>
     (\<exists>d k r. s = d @ k @ r \<and> list_all (\<lambda>c. \<not> isLineTerminator c) d \<and>
        saysIgnoringCase k \<and> matchBlankLine r)"
proof
  show "matchDotsSays s \<Longrightarrow>
      \<exists>d k r. s = d @ k @ r \<and> list_all (\<lambda>c. \<not> isLineTerminator c) d \<and>
        saysIgnoringCase k \<and> matchBlankLine r"
  proof (induction s)
    case Nil
    then show ?case by simp
  next
    case (Cons c cs)
    show ?case
    proof (cases "matchSays (c # cs)")
      case True
      then obtain k r where "c # cs = [] @ k @ r" "saysIgnoringCase k" "matchBlankLine r"
        using matchSays_iff [of "c # cs"] by auto
      moreover have "list_all (\<lambda>c. \<not> isLineTerminator c) []" by simp
      ultimately show ?thesis by blast
    next
      case False
      then have n: "\<not> isLineTerminator c" and "matchDotsSays cs" using Cons.prems by auto
      then obtain d k r where "cs = d @ k @ r" "list_all (\<lambda>c. \<not> isLineTerminator c) d"
        "saysIgnoringCase k" "matchBlankLine r"
        using Cons.IH by blast
      then have "c # cs = (c # d) @ k @ r" "list_all (\<lambda>c. \<not> isLineTerminator c) (c # d)"
        using n by simp_all
      then show ?thesis using \<open>saysIgnoringCase k\<close> \<open>matchBlankLine r\<close> by blast
    qed
  qed
next
  assume "\<exists>d k r. s = d @ k @ r \<and> list_all (\<lambda>c. \<not> isLineTerminator c) d \<and>
      saysIgnoringCase k \<and> matchBlankLine r"
  then obtain d k r where s: "s = d @ k @ r" "list_all (\<lambda>c. \<not> isLineTerminator c) d"
    and m: "matchSays (k @ r)"
    using matchSays_iff by blast
  have ne: "k @ r \<noteq> []" using m by (auto simp: matchSays_def)
  show "matchDotsSays s"
    using s
  proof (induction d arbitrary: s)
    case Nil
    then show ?case using m ne by (cases "k @ r") simp_all
  next
    case (Cons c d)
    then show ?case by simp
  qed
qed

text \<open>The matcher accepts exactly the strings of the language of
  \<open>/^## .+says:\s*\n\n/i\<close>.\<close>

lemma hasHeadingPattern_iff_headingLanguage:
  "hasHeadingPattern s \<longleftrightarrow> headingLanguage s"
proof
  assume "hasHeadingPattern s"
  then obtain c rest where s: "s = CHR ''#'' # CHR ''#'' # CHR '' '' # c # rest"
    and c: "\<not> isLineTerminator c" and m: "matchDotsSays rest"
    by (auto simp: hasHeadingPattern_def split: list.splits)
  obtain d k r where r: "rest = d @ k @ r" "list_all (\<lambda>c. \<not> isLineTerminator c) d"
    "saysIgnoringCase k" "matchBlankLine r"
    using m matchDotsSays_iff by blast
  obtain ws t where w: "r = ws @ [CHR 0x0A, CHR 0x0A] @ t" "list_all isWhiteSpace ws"
    using r(4) matchBlankLine_iff by blast
  have "s = ''## '' @ (c # d) @ k @ ws @ [CHR 0x0A, CHR 0x0A] @ t"
    using s r(1) w(1) by simp
  moreover have "c # d \<noteq> []" "list_all (\<lambda>c. \<not> isLineTerminator c) (c # d)"
    using c r(2) by simp_all
  ultimately show "headingLanguage s"
    unfolding headingLanguage_def using r(3) w(2) by blast
next
  assume "headingLanguage s"
  then obtain d k ws t where s: "s = ''## '' @ d @ k @ ws @ [CHR 0x0A, CHR 0x0A] @ t"
    and d: "d \<noteq> []" "list_all (\<lambda>c. \<not> isLineTerminator c) d"
    and k: "saysIgnoringCase k" and w: "list_all isWhiteSpace ws"
    unfolding headingLanguage_def by blast
  obtain c d' where cd: "d = c # d'" using d(1) by (cases d) auto
  have "matchBlankLine (ws @ [CHR 0x0A, CHR 0x0A] @ t)"
    using w matchBlankLine_iff by blast
  then have "matchDotsSays (d' @ k @ ws @ [CHR 0x0A, CHR 0x0A] @ t)"
    using d(2) cd k matchDotsSays_iff by auto
  then show "hasHeadingPattern s"
    using s cd d(2) by (simp add: hasHeadingPattern_def)
qed

section \<open>Properties of the tool schema patch\<close>

subsection \<open>The patch writes only to cells it has allocated\<close>

lemma copyWithoutFormat_cells:
  assumes "cells h t = Obj tp" "cells h f = Obj fp" "cells h p = Obj pp"
    "cells h q = Obj qp" "cells h u = Obj up"
    and "t < limit h" "f < limit h" "p < limit h" "q < limit h" "u < limit h"
    and "copyWithoutFormat (Ref t) (Ref f) (Ref p) (Ref q) (Ref u) h = (r, h')"
  shows "r = Ref (limit h + 3) \<and> limit h' = limit h + 5 \<and>
         cells h' (limit h) = Obj (AList.update ''properties'' (Ref (limit h + 1)) pp) \<and>
         cells h' (limit h + 1) = Obj (AList.update ''imageUrl'' (Ref (limit h + 2)) qp) \<and>
         cells h' (limit h + 2) = Obj (AList.delete ''format'' up) \<and>
         cells h' (limit h + 3) = Obj (AList.update ''function'' (Ref (limit h + 4)) tp) \<and>
         cells h' (limit h + 4) = Obj (AList.update ''parameters'' (Ref (limit h)) fp)"
  using assms
  by (auto simp: copyWithoutFormat_def alloc_def setProp_def deleteProp_def ownProps_def Let_def
      eval_nat_numeral)

lemma copyWithoutFormat_frame:
  assumes "copyWithoutFormat tool fn params props imageUrl h = (r, h')"
  shows "limit h' = limit h + 5 \<and> (\<forall>a<limit h. cells h' a = cells h a)"
  using assms
  by (auto simp: copyWithoutFormat_def alloc_def setProp_def deleteProp_def Let_def)

lemma patchTool_frame:
  assumes "patchTool tool h = (r, h')"
  shows "limit h \<le> limit h' \<and> (\<forall>a<limit h. cells h' a = cells h a)"
  using assms copyWithoutFormat_frame
  by (fastforce simp: patchTool_def split: sum.splits if_splits prod.splits)

lemma patchLoop_frame:
  "patchLoop pa ts h = (r, h') \<Longrightarrow>
     limit h \<le> limit h' \<and> (\<forall>a<limit h. a \<noteq> pa \<longrightarrow> cells h' a = cells h a)"
proof (induction ts arbitrary: h)
  case Nil
  then show ?case by simp
next
  case (Cons tool rest)
  obtain x h1 where p: "patchTool tool h = (x, h1)" by (metis surj_pair)
  have f1: "limit h \<le> limit h1" "\<And>a. a < limit h \<Longrightarrow> cells h1 a = cells h a"
    using patchTool_frame [OF p] by simp_all
  show ?case
  proof (cases x)
    case (Inl err)
    then show ?thesis using Cons.prems p f1 by simp
  next
    case (Inr patched)
    then have l: "patchLoop pa rest (arrayPush pa patched h1) = (r, h')"
      using Cons.prems p by simp
    have "limit (arrayPush pa patched h1) \<le> limit h'"
      "\<And>a. a < limit (arrayPush pa patched h1) \<Longrightarrow> a \<noteq> pa \<Longrightarrow>
         cells h' a = cells (arrayPush pa patched h1) a"
      using Cons.IH [OF l] by simp_all
    then show ?thesis using f1 by (simp add: arrayPush_def)
  qed
qed

lemma patchLoop_result:
  "patchLoop pa ts h = (Inr v, h') \<Longrightarrow> cells h pa = Arr acc \<Longrightarrow> pa < limit h \<Longrightarrow>
     \<exists>xs. cells h' pa = Arr (acc @ xs) \<and> length xs = length ts"
proof (induction ts arbitrary: h acc)
  case Nil
  then show ?case by simp
next
  case (Cons tool rest)
  obtain x h1 where p: "patchTool tool h = (x, h1)" by (metis surj_pair)
  have f1: "limit h \<le> limit h1" "cells h1 pa = Arr acc"
    using patchTool_frame [OF p] Cons.prems(2,3) by simp_all
  show ?case
  proof (cases x)
    case (Inl err)
    then show ?thesis using Cons.prems p by simp
  next
    case (Inr patched)
    then have l: "patchLoop pa rest (arrayPush pa patched h1) = (Inr v, h')"
      using Cons.prems p by simp
    have "cells (arrayPush pa patched h1) pa = Arr (acc @ [patched])"
      "pa < limit (arrayPush pa patched h1)"
      using f1 Cons.prems(3) by (simp_all add: arrayPush_def)
    then obtain xs where "cells h' pa = Arr ((acc @ [patched]) @ xs)" "length xs = length rest"
      using Cons.IH [OF l] by blast
    then show ?thesis by (intro exI [of _ "patched # xs"]) simp
  qed
qed

subsection \<open>A tool with a formatted \<open>imageUrl\<close> string parameter is copied without the format\<close>

lemma patchTool_formatted:
  assumes "cells h t = Obj tp" "map_of tp ''type'' = Some (Str ''function'')"
    "map_of tp ''function'' = Some (Ref f)"
    "cells h f = Obj fp" "map_of fp ''parameters'' = Some (Ref p)"
    "cells h p = Obj pp" "map_of pp ''properties'' = Some (Ref q)"
    "cells h q = Obj qp" "map_of qp ''imageUrl'' = Some (Ref u)"
    "cells h u = Obj up" "map_of up ''type'' = Some (Str ''string'')"
    "map_of up ''format'' = Some fmt" "truthy fmt"
  shows "patchTool (Ref t) h =
           (Inr (fst (copyWithoutFormat (Ref t) (Ref f) (Ref p) (Ref q) (Ref u) h)),
            snd (copyWithoutFormat (Ref t) (Ref f) (Ref p) (Ref q) (Ref u) h))"
  using assms by (simp add: patchTool_def getProp_def split: prod.splits)

lemma patchLoop_nth:
  assumes "patchLoop pa ts h = (Inr v, h')"
    and "cells h pa = Arr acc" "base \<le> pa" "pa < limit h"
    and "i < length ts" "ts ! i = Ref t"
    and "t < base" "f < base" "p < base" "q < base" "u < base"
    and "cells h t = Obj tp" "cells h f = Obj fp" "cells h p = Obj pp"
      "cells h q = Obj qp" "cells h u = Obj up"
    and "map_of tp ''type'' = Some (Str ''function'')"
      "map_of tp ''function'' = Some (Ref f)"
      "map_of fp ''parameters'' = Some (Ref p)"
      "map_of pp ''properties'' = Some (Ref q)"
      "map_of qp ''imageUrl'' = Some (Ref u)"
      "map_of up ''type'' = Some (Str ''string'')"
      "map_of up ''format'' = Some fmt" "truthy fmt"
  shows "\<exists>n xs. cells h' pa = Arr xs \<and> length xs = length acc + length ts \<and>
           xs ! (length acc + i) = Ref (n + 3) \<and> pa < n \<and>
           cells h' n = Obj (AList.update ''properties'' (Ref (n + 1)) pp) \<and>
           cells h' (n + 1) = Obj (AList.update ''imageUrl'' (Ref (n + 2)) qp) \<and>
           cells h' (n + 2) = Obj (AList.delete ''format'' up) \<and>
           cells h' (n + 3) = Obj (AList.update ''function'' (Ref (n + 4)) tp) \<and>
           cells h' (n + 4) = Obj (AList.update ''parameters'' (Ref n) fp)"
  using assms(1,2,4,5,6,12,13,14,15,16)
proof (induction ts arbitrary: h acc i)
  case Nil
  then show ?case by simp
next
  case (Cons tool rest)
  note site = assms(17-24)
  have lt: "t < limit h" "f < limit h" "p < limit h" "q < limit h" "u < limit h"
    "t \<noteq> pa" "f \<noteq> pa" "p \<noteq> pa" "q \<noteq> pa" "u \<noteq> pa"
    using assms(3,7-11) Cons.prems(3) by simp_all
  obtain x h1 where pt: "patchTool tool h = (x, h1)" by (metis surj_pair)
  have f1: "limit h \<le> limit h1" "\<And>a. a < limit h \<Longrightarrow> cells h1 a = cells h a"
    using patchTool_frame [OF pt] by simp_all
  obtain patched where x: "x = Inr patched"
    using Cons.prems(1) pt by (cases x) simp_all
  let ?h2 = "arrayPush pa patched h1"
  have l: "patchLoop pa rest ?h2 = (Inr v, h')"
    using Cons.prems(1) pt x by simp
  have h2: "cells ?h2 pa = Arr (acc @ [patched])" "pa < limit ?h2" "limit ?h2 = limit h1"
    "\<And>a. a \<noteq> pa \<Longrightarrow> cells ?h2 a = cells h1 a"
    using f1 Cons.prems(2,3) by (simp_all add: arrayPush_def)
  show ?case
  proof (cases i)
    case 0
    then have tool: "tool = Ref t" using Cons.prems(5) by simp
    obtain r hc where c: "copyWithoutFormat (Ref t) (Ref f) (Ref p) (Ref q) (Ref u) h = (r, hc)"
      by (metis surj_pair)
    have "patchTool (Ref t) h = (Inr r, hc)"
      using patchTool_formatted [OF Cons.prems(6) site(1,2) Cons.prems(7) site(3)
          Cons.prems(8) site(4) Cons.prems(9) site(5) Cons.prems(10) site(6,7,8)] c
      by simp
    then have e: "patched = r" "h1 = hc" using pt x tool by simp_all
    have cw: "r = Ref (limit h + 3)" "limit hc = limit h + 5"
      "cells hc (limit h) = Obj (AList.update ''properties'' (Ref (limit h + 1)) pp)"
      "cells hc (limit h + 1) = Obj (AList.update ''imageUrl'' (Ref (limit h + 2)) qp)"
      "cells hc (limit h + 2) = Obj (AList.delete ''format'' up)"
      "cells hc (limit h + 3) = Obj (AList.update ''function'' (Ref (limit h + 4)) tp)"
      "cells hc (limit h + 4) = Obj (AList.update ''parameters'' (Ref (limit h)) fp)"
      using copyWithoutFormat_cells [OF Cons.prems(6-10) lt(1-5) c] by simp_all
    have keep: "cells h' a = cells hc a" if "limit h \<le> a" "a < limit h + 5" for a
    proof -
      have "a \<noteq> pa" using that Cons.prems(3) by simp
      moreover have "a < limit ?h2" using that h2(3) e cw(2) by simp
      ultimately have "cells h' a = cells ?h2 a"
        using patchLoop_frame [OF l] by simp
      then show ?thesis using h2(4) \<open>a \<noteq> pa\<close> e by simp
    qed
    obtain xs where xs: "cells h' pa = Arr ((acc @ [patched]) @ xs)" "length xs = length rest"
      using patchLoop_result [OF l h2(1,2)] by blast
    have "((acc @ [patched]) @ xs) ! (length acc + i) = Ref (limit h + 3)"
      using 0 e cw(1) by (simp add: nth_append)
    then show ?thesis
      using xs cw keep Cons.prems(3)
      by (intro exI [of _ "limit h"] exI [of _ "(acc @ [patched]) @ xs"]) simp
  next
    case (Suc j)
    have j: "j < length rest" "rest ! j = Ref t"
      using Suc Cons.prems(4,5) by simp_all
    have cs: "cells ?h2 t = Obj tp" "cells ?h2 f = Obj fp" "cells ?h2 p = Obj pp"
      "cells ?h2 q = Obj qp" "cells ?h2 u = Obj up"
      using h2(4) f1(2) lt Cons.prems(6-10) by simp_all
    obtain n xs where "cells h' pa = Arr xs"
      "length xs = length (acc @ [patched]) + length rest"
      "xs ! (length (acc @ [patched]) + j) = Ref (n + 3)" "pa < n"
      "cells h' n = Obj (AList.update ''properties'' (Ref (n + 1)) pp)"
      "cells h' (n + 1) = Obj (AList.update ''imageUrl'' (Ref (n + 2)) qp)"
      "cells h' (n + 2) = Obj (AList.delete ''format'' up)"
      "cells h' (n + 3) = Obj (AList.update ''function'' (Ref (n + 4)) tp)"
      "cells h' (n + 4) = Obj (AList.update ''parameters'' (Ref n) fp)"
      using Cons.IH [OF l h2(1,2) j cs] by blast
    then show ?thesis
      using Suc by (intro exI [of _ n] exI [of _ xs]) simp
  qed
qed

lemma patchTools_frame:
  assumes "patchTools ts h = (r, h')"
  shows "limit h \<le> limit h' \<and> (\<forall>a<limit h. cells h' a = cells h a)"
proof -
  obtain x h2 where l: "patchLoop (limit h) ts (snd (alloc (Arr []) h)) = (x, h2)"
    by (metis surj_pair)
  have "h' = h2" using assms l by (simp add: patchTools_def alloc_def split: sum.splits)
  moreover have "limit (snd (alloc (Arr []) h)) \<le> limit h2"
    "\<And>a. a < limit (snd (alloc (Arr []) h)) \<Longrightarrow> a \<noteq> limit h \<Longrightarrow>
       cells h2 a = cells (snd (alloc (Arr []) h)) a"
    using patchLoop_frame [OF l] by simp_all
  ultimately show ?thesis by (simp add: alloc_def)
qed

lemma prepareTools_frame:
  assumes "prepareTools tls h = (r, h')"
  shows "limit h \<le> limit h' \<and> (\<forall>a<limit h. cells h' a = cells h a)"
proof (cases "\<exists>ta ts. tls = Some ta \<and> cells h ta = Arr ts \<and> ts \<noteq> []")
  case True
  then obtain ta ts where t: "tls = Some ta" "cells h ta = Arr ts" "ts \<noteq> []" by blast
  obtain x h2 where p: "patchTools ts h = (x, h2)" by (metis surj_pair)
  have "h' = h2" using assms t p by (simp add: prepareTools_def split: sum.splits)
  then show ?thesis using patchTools_frame [OF p] by simp
next
  case False
  then have "h' = h"
    using assms by (auto simp: prepareTools_def split: option.splits obj.splits if_splits)
  then show ?thesis by simp
qed

text \<open>When tool schemas are supplied, what goes into the request is a new array filled
  by the loop.\<close>

lemma prepareTools_supplied:
  assumes "prepareTools (Some ta) h = (Inr rt, h')" and "cells h ta = Arr ts" and "ts \<noteq> []"
  shows "rt = Some (Ref (limit h)) \<and>
         patchLoop (limit h) ts \<lparr> cells = (cells h)(limit h := Arr []), limit = Suc (limit h) \<rparr>
           = (Inr (), h')"
  using assms
  by (auto simp: prepareTools_def patchTools_def alloc_def split: prod.splits sum.splits)

lemma handleResponse_keeps:
  "sent (snd (handleResponse e mid msgs cc w)) = sent w \<and>
   objs (snd (handleResponse e mid msgs cc w)) = objs w"
  by (simp add: handleResponse_def softFailure_def copyMessages_def Let_def
      split: option.splits sum.splits prod.splits)

text \<open>\<open>generateCompletion\<close> sends at most one request; when it sends one, the request
  carries the tools that the patch has prepared, and the object store is not touched
  after that.\<close>

lemma generateCompletion_sent:
  assumes "sent (snd (generateCompletion e mid p msgs tls w)) \<noteq> sent w"
  shows "\<exists>rt h req.
           prepareTools tls (objs w) = (Inr rt, h) \<and>
           sent (snd (generateCompletion e mid p msgs tls w)) = sent w @ [(req, h)] \<and>
           req_tools req = rt \<and>
           objs (snd (generateCompletion e mid p msgs tls w)) = h"
proof -
  obtain x h where pt: "prepareTools tls (objs w) = (x, h)" by (metis surj_pair)
  show ?thesis
    using assms pt handleResponse_keeps
    by (auto simp: generateCompletion_def Let_def
        split: sum.splits option.splits if_splits)
qed

lemma generateCompletion_objs_frame:
  "limit (objs w) \<le> limit (objs (snd (generateCompletion e mid p msgs tls w))) \<and>
   (\<forall>a<limit (objs w).
      cells (objs (snd (generateCompletion e mid p msgs tls w))) a = cells (objs w) a)"
proof -
  obtain x h where pt: "prepareTools tls (objs w) = (x, h)" by (metis surj_pair)
  have "objs (snd (generateCompletion e mid p msgs tls w)) = h \<or>
        objs (snd (generateCompletion e mid p msgs tls w)) = objs w"
    using pt handleResponse_keeps
    by (auto simp: generateCompletion_def Let_def
        split: sum.splits option.splits if_splits)
  then show ?thesis using prepareTools_frame [OF pt] by auto
qed

subsection \<open>From property paths to cells\<close>

lemma propertyOf_defined:
  assumes "propertyOf h v k = x" and "x \<noteq> Undefined"
  shows "\<exists>a ps. v = Ref a \<and> cells h a = Obj ps \<and> map_of ps k = Some x"
  using assms
  by (auto simp: propertyOf_def getProp_def split: val.splits obj.splits option.splits)

lemma allocated_Ref:
  assumes "allocated h v"
  shows "\<exists>a. v = Ref a \<and> a < limit h"
  using assms by (cases v) simp_all

lemma propertyOf_Obj:
  "cells h a = Obj ps \<Longrightarrow> propertyOf h (Ref a) k = (case map_of ps k of Some x \<Rightarrow> x | None \<Rightarrow> Undefined)"
  by (simp add: propertyOf_def getProp_def)

subsection \<open>The claim about the tool schema patch\<close>

text \<open>
  C8. Let tool schemas be supplied, and let the \<open>i\<close>-th of them be a function tool whose
  \<open>function.parameters.properties.imageUrl\<close> is an object with \<open>type\<close> \<open>string\<close> and a
  \<open>format\<close> (a truthy one, as any format name is), all of these objects being cells the
  caller has allocated. Whenever \<open>generateCompletion\<close> sends its request, the request's
  \<open>tools\<close> is a new array of the same length whose \<open>i\<close>-th tool is a new object, and in the
  store that goes with the request the \<open>imageUrl\<close> schema of that tool has the properties
  of the original one except \<open>format\<close>, which it does not have. Every cell that the
  caller had allocated is the same in the store sent with the request and in the store
  that \<open>generateCompletion\<close> leaves behind; this last part holds whether or not a request
  is sent.
\<close>

theorem imageUrl_format_stripped:
  assumes "cells (objs w) ta = Arr ts" and "i < length ts"
    and "propertyOf (objs w) (ts ! i) ''type'' = Str ''function''"
    and "allocated (objs w) (ts ! i)"
    and "allocated (objs w) (propertyOf (objs w) (ts ! i) ''function'')"
    and "allocated (objs w) (parametersOf (objs w) (ts ! i))"
    and "allocated (objs w) (propertiesOf (objs w) (ts ! i))"
    and "allocated (objs w) (imageUrlOf (objs w) (ts ! i))"
    and "propertyOf (objs w) (imageUrlOf (objs w) (ts ! i)) ''type'' = Str ''string''"
    and "truthy (propertyOf (objs w) (imageUrlOf (objs w) (ts ! i)) ''format'')"
  shows "(sent (snd (generateCompletion e mid p msgs (Some ta) w)) \<noteq> sent w \<longrightarrow>
          (\<exists>req hs pa xs.
             sent (snd (generateCompletion e mid p msgs (Some ta) w)) = sent w @ [(req, hs)] \<and>
             req_tools req = Some (Ref pa) \<and> limit (objs w) \<le> pa \<and>
             cells hs pa = Arr xs \<and> length xs = length ts \<and>
             \<not> allocated (objs w) (xs ! i) \<and>
             ownProps hs (imageUrlOf hs (xs ! i)) =
               AList.delete ''format'' (ownProps (objs w) (imageUrlOf (objs w) (ts ! i))) \<and>
             map_of (ownProps hs (imageUrlOf hs (xs ! i))) ''format'' = None \<and>
             propertyOf hs (imageUrlOf hs (xs ! i)) ''format'' = Undefined \<and>
             propertyOf hs (imageUrlOf hs (xs ! i)) ''type'' = Str ''string'' \<and>
             (\<forall>a<limit (objs w). cells hs a = cells (objs w) a))) \<and>
         (\<forall>a<limit (objs w).
            cells (objs (snd (generateCompletion e mid p msgs (Some ta) w))) a =
              cells (objs w) a)"
proof -
  let ?h = "objs w"
  let ?g = "generateCompletion e mid p msgs (Some ta) w"
  obtain t tp where t: "ts ! i = Ref t" "cells ?h t = Obj tp"
    "map_of tp ''type'' = Some (Str ''function'')"
    using propertyOf_defined [OF assms(3)] by auto
  have tl: "t < limit ?h" using assms(4) t(1) by simp
  obtain f where f: "propertyOf ?h (Ref t) ''function'' = Ref f" "f < limit ?h"
    using allocated_Ref [OF assms(5)] t(1) by auto
  have tf: "map_of tp ''function'' = Some (Ref f)"
    using propertyOf_defined [OF f(1)] t(2) by auto
  obtain pr where pr: "propertyOf ?h (Ref f) ''parameters'' = Ref pr" "pr < limit ?h"
    using allocated_Ref [OF assms(6)] t(1) f(1) by (auto simp: parametersOf_def)
  obtain fp where fp: "cells ?h f = Obj fp" "map_of fp ''parameters'' = Some (Ref pr)"
    using propertyOf_defined [OF pr(1)] by auto
  obtain q where q: "propertyOf ?h (Ref pr) ''properties'' = Ref q" "q < limit ?h"
    using allocated_Ref [OF assms(7)] t(1) f(1) pr(1)
    by (auto simp: propertiesOf_def parametersOf_def)
  obtain pp where pp: "cells ?h pr = Obj pp" "map_of pp ''properties'' = Some (Ref q)"
    using propertyOf_defined [OF q(1)] by auto
  have io: "imageUrlOf ?h (ts ! i) = propertyOf ?h (Ref q) ''imageUrl''"
    using t(1) f(1) pr(1) q(1) by (simp add: imageUrlOf_def propertiesOf_def parametersOf_def)
  obtain u where u: "propertyOf ?h (Ref q) ''imageUrl'' = Ref u" "u < limit ?h"
    using allocated_Ref [OF assms(8)] io by auto
  obtain qp where qp: "cells ?h q = Obj qp" "map_of qp ''imageUrl'' = Some (Ref u)"
    using propertyOf_defined [OF u(1)] by auto
  have ut: "propertyOf ?h (Ref u) ''type'' = Str ''string''"
    using assms(9) io u(1) by simp
  obtain up where up: "cells ?h u = Obj up" "map_of up ''type'' = Some (Str ''string'')"
    using propertyOf_defined [OF ut] by auto
  have "propertyOf ?h (Ref u) ''format'' \<noteq> Undefined"
    using assms(10) io u(1) by auto
  then obtain fmt where fm: "map_of up ''format'' = Some fmt" "truthy fmt"
    using up(1) assms(10) io u(1) by (auto simp: propertyOf_Obj split: option.splits)
  have orig: "ownProps ?h (imageUrlOf ?h (ts ! i)) = up"
    using io u(1) up(1) by (simp add: ownProps_def)
  have frame: "\<forall>a<limit ?h. cells (objs (snd ?g)) a = cells ?h a"
    using generateCompletion_objs_frame [of w e mid p msgs "Some ta"] by simp
  have "\<exists>req hs pa xs.
          sent (snd ?g) = sent w @ [(req, hs)] \<and>
          req_tools req = Some (Ref pa) \<and> limit ?h \<le> pa \<and>
          cells hs pa = Arr xs \<and> length xs = length ts \<and>
          \<not> allocated ?h (xs ! i) \<and>
          ownProps hs (imageUrlOf hs (xs ! i)) =
            AList.delete ''format'' (ownProps ?h (imageUrlOf ?h (ts ! i))) \<and>
          map_of (ownProps hs (imageUrlOf hs (xs ! i))) ''format'' = None \<and>
          propertyOf hs (imageUrlOf hs (xs ! i)) ''format'' = Undefined \<and>
          propertyOf hs (imageUrlOf hs (xs ! i)) ''type'' = Str ''string'' \<and>
          (\<forall>a<limit ?h. cells hs a = cells ?h a)"
    if s: "sent (snd ?g) \<noteq> sent w"
  proof -
    obtain rt hs req where g: "prepareTools (Some ta) ?h = (Inr rt, hs)"
      "sent (snd ?g) = sent w @ [(req, hs)]" "req_tools req = rt" "objs (snd ?g) = hs"
      using generateCompletion_sent [OF s] by blast
    have ne: "ts \<noteq> []" using assms(2) by auto
    let ?h1 = "\<lparr> cells = (cells ?h)(limit ?h := Arr []), limit = Suc (limit ?h) \<rparr>"
    have rt: "rt = Some (Ref (limit ?h))"
      and l: "patchLoop (limit ?h) ts ?h1 = (Inr (), hs)"
      using prepareTools_supplied [OF g(1) assms(1) ne] by simp_all
    have c1: "cells ?h1 (limit ?h) = Arr []" "limit ?h \<le> limit ?h" "limit ?h < limit ?h1"
      "cells ?h1 t = Obj tp" "cells ?h1 f = Obj fp" "cells ?h1 pr = Obj pp"
      "cells ?h1 q = Obj qp" "cells ?h1 u = Obj up"
      using t(2) fp(1) pp(1) qp(1) up(1) tl f(2) pr(2) q(2) u(2) by simp_all
    obtain n xs where r: "cells hs (limit ?h) = Arr xs" "length xs = length ts"
      "xs ! i = Ref (n + 3)" "limit ?h < n"
      "cells hs n = Obj (AList.update ''properties'' (Ref (n + 1)) pp)"
      "cells hs (n + 1) = Obj (AList.update ''imageUrl'' (Ref (n + 2)) qp)"
      "cells hs (n + 2) = Obj (AList.delete ''format'' up)"
      "cells hs (n + 3) = Obj (AList.update ''function'' (Ref (n + 4)) tp)"
      "cells hs (n + 4) = Obj (AList.update ''parameters'' (Ref n) fp)"
      using patchLoop_nth [OF l c1(1,2,3) assms(2) t(1) tl f(2) pr(2) q(2) u(2)
          c1(4,5,6,7,8) t(3) tf fp(2) pp(2) qp(2) up(2) fm]
      by auto
    have xi: "xs ! i = Ref (n + 3)" using r(3) by simp
    have pth: "imageUrlOf hs (xs ! i) = Ref (n + 2)"
      using xi r(5,6,8,9)
      by (simp add: imageUrlOf_def propertiesOf_def parametersOf_def propertyOf_Obj
          update_conv')
    have o: "ownProps hs (imageUrlOf hs (xs ! i)) = AList.delete ''format'' up"
      using pth r(7) by (simp add: ownProps_def)
    have m: "map_of (AList.delete ''format'' up) ''format'' = None"
      by (simp add: delete_conv')
    have ty: "map_of (AList.delete ''format'' up) ''type'' = Some (Str ''string'')"
      using up(2) by (simp add: delete_conv')
    have pf: "propertyOf hs (imageUrlOf hs (xs ! i)) ''format'' = Undefined"
      "propertyOf hs (imageUrlOf hs (xs ! i)) ''type'' = Str ''string''"
      using pth r(7) m ty by (simp_all add: propertyOf_Obj)
    have na: "\<not> allocated ?h (xs ! i)" using xi r(4) by simp
    show ?thesis
      using g(2,3,4) rt r(1,2) na o orig m pf frame
      by (intro exI [of _ req] exI [of _ hs] exI [of _ "limit ?h"] exI [of _ xs]) simp
  qed
  then show ?thesis using frame by blast
qed

theorem imageUrl_format_stripped_witness:
  "cells (objs world2) 0 = Arr [Ref 1, Ref 6] \<and>
   ownProps (objs world2) (imageUrlOf (objs world2) (Ref 1)) =
     [(''type'', Str ''string''), (''format'', Str ''uri'')] \<and>
   sent (snd (generateCompletion demo_env ''model-1'' ''Hi'' 0 (Some 0) world2)) \<noteq> sent world2 \<and>
   (\<exists>req hs pa xs.
      sent (snd (generateCompletion demo_env ''model-1'' ''Hi'' 0 (Some 0) world2)) = [(req, hs)] \<and>
      req_tools req = Some (Ref pa) \<and> cells hs pa = Arr xs \<and> length xs = 2 \<and>
      ownProps hs (imageUrlOf hs (xs ! 0)) = [(''type'', Str ''string'')] \<and>
      cells hs 5 = Obj [(''type'', Str ''string''), (''format'', Str ''uri'')]) \<and>
   cells (objs (snd (generateCompletion demo_env ''model-1'' ''Hi'' 0 (Some 0) world2))) 5 =
     Obj [(''type'', Str ''string''), (''format'', Str ''uri'')]"
proof -
  have c: "cells (objs world2) 0 = Arr [Ref 1, Ref 6]"
    by (simp add: world2_def demo_heap_def)
  have i: "0 < length [Ref 1, Ref 6 :: val]" by simp
  have p: "propertyOf (objs world2) (Ref 1) ''function'' = Ref 2"
    "parametersOf (objs world2) (Ref 1) = Ref 3"
    "propertiesOf (objs world2) (Ref 1) = Ref 4"
    "imageUrlOf (objs world2) (Ref 1) = Ref 5"
    by (simp_all add: imageUrlOf_def propertiesOf_def parametersOf_def propertyOf_def
        getProp_def world2_def demo_heap_def)
  have h3: "propertyOf (objs world2) ([Ref 1, Ref 6] ! 0) ''type'' = Str ''function''"
    by (simp add: propertyOf_def getProp_def world2_def demo_heap_def)
  have h4: "allocated (objs world2) ([Ref 1, Ref 6] ! 0)"
    by (simp add: world2_def demo_heap_def)
  have h5: "allocated (objs world2) (propertyOf (objs world2) ([Ref 1, Ref 6] ! 0) ''function'')"
    using p by (simp add: world2_def demo_heap_def)
  have h6: "allocated (objs world2) (parametersOf (objs world2) ([Ref 1, Ref 6] ! 0))"
    using p by (simp add: world2_def demo_heap_def)
  have h7: "allocated (objs world2) (propertiesOf (objs world2) ([Ref 1, Ref 6] ! 0))"
    using p by (simp add: world2_def demo_heap_def)
  have h8: "allocated (objs world2) (imageUrlOf (objs world2) ([Ref 1, Ref 6] ! 0))"
    using p by (simp add: world2_def demo_heap_def)
  have h9: "propertyOf (objs world2) (imageUrlOf (objs world2) ([Ref 1, Ref 6] ! 0)) ''type'' =
      Str ''string''"
    using p by (simp add: propertyOf_def getProp_def world2_def demo_heap_def)
  have h10: "truthy (propertyOf (objs world2) (imageUrlOf (objs world2) ([Ref 1, Ref 6] ! 0))
      ''format'')"
    using p by (simp add: propertyOf_def getProp_def world2_def demo_heap_def)
  have o: "ownProps (objs world2) (imageUrlOf (objs world2) (Ref 1)) =
      [(''type'', Str ''string''), (''format'', Str ''uri'')]"
    using p by (simp add: ownProps_def world2_def demo_heap_def)
  have s: "length (sent (snd (generateCompletion demo_env ''model-1'' ''Hi'' 0 (Some 0) world2)))
      = 1"
    by (simp add: generateCompletion_def prepareTools_def patchTools_def patchTool_def
        copyWithoutFormat_def alloc_def getProp_def ownProps_def setProp_def deleteProp_def
        arrayPush_def handleResponse_def firstChoice_def copyMessages_def
        demo_env_def demo_getModel_def demo_resolveKey_def demo_create_def
        demo_completion_def demo_model_def world2_def world1_def world0_def demo_heap_def
        Let_def)
  have e: "sent world2 = []" "limit (objs world2) = 9"
    "cells (objs world2) 5 = Obj [(''type'', Str ''string''), (''format'', Str ''uri'')]"
    by (simp_all add: world2_def world1_def world0_def demo_heap_def)
  have n: "sent (snd (generateCompletion demo_env ''model-1'' ''Hi'' 0 (Some 0) world2)) \<noteq>
      sent world2"
    using s e(1) by auto
  show ?thesis
    using imageUrl_format_stripped [OF c i h3 h4 h5 h6 h7 h8 h9 h10,
        of demo_env "''model-1''" "''Hi''" 0] c o n e
    by (auto simp: delete_conv')
qed

end
